theory Spec2Isabelle
  imports Complex_Main "HOL-Library.Sublist"
begin

section \<open>Strings, bounded deques and the clock\<close>

text \<open>
  Container names are Docker names (ASCII letters, digits, \<open>_\<close>, \<open>.\<close> and \<open>-\<close>), so
  Python's \<open>str.lower()\<close> is the ASCII lower-casing of every character.
\<close>

definition lower_char :: "char \<Rightarrow> char" where
  "lower_char c =
     (let n = (of_char c :: nat)
      in if 65 \<le> n \<and> n \<le> 90 then char_of (n + 32) else c)"

definition lower :: "string \<Rightarrow> string" where
  "lower s = map lower_char s"

text \<open>Python's \<open>a in b\<close> on strings: \<open>a\<close> occurs in \<open>b\<close> as a contiguous block.\<close>

definition str_in :: "string \<Rightarrow> string \<Rightarrow> bool" where
  "str_in a b = sublist a b"

text \<open>
  \<open>collections.deque(maxlen=n).append(x)\<close>: the element is added on the right, and
  elements are dropped from the left while the deque is longer than \<open>maxlen\<close>.
\<close>

definition deque_append :: "nat \<Rightarrow> 'a list \<Rightarrow> 'a \<Rightarrow> 'a list" where
  "deque_append maxlen xs x =
     (let ys = xs @ [x] in drop (length ys - maxlen) ys)"

text \<open>
  \<open>time.time()\<close> is an effect. The clock is the sequence of the readings the process
  obtains, and the number of readings made so far is threaded through every function
  that reads the time: the \<open>n\<close>-th call returns \<open>clk n\<close>.
\<close>

type_synonym clock = "nat \<Rightarrow> real"

definition time_time :: "clock \<Rightarrow> nat \<Rightarrow> real \<times> nat" where
  "time_time clk n = (clk n, Suc n)"

section \<open>Container profiles (enhanced\_gpu\_inference.py, class ContainerProfile)\<close>

record observation =
  timestamp :: real
  visible :: bool
  memory :: real

record ContainerProfile =
  container_id :: string
  container_name :: string
  gpu_history :: "observation list"
  last_seen_with_gpu :: "real option"
  typical_memory :: real
  is_llm :: bool

definition llm_indicators :: "string list" where
  "llm_indicators =
     [''ollama'', ''llama'', ''gpt'', ''llm'', ''ai'', ''ml'', ''model'', ''inference'']"

definition detect_llm_container :: "string \<Rightarrow> bool" where
  "detect_llm_container name =
     (let name_lower = lower name
      in list_ex (\<lambda>indicator. str_in indicator name_lower) llm_indicators)"

text \<open>\<open>ContainerProfile.__init__\<close>; the history is a deque of at most \<open>HISTORY_SIZE\<close> entries.\<close>

definition ContainerProfile_init :: "string \<Rightarrow> string \<Rightarrow> ContainerProfile" where
  "ContainerProfile_init cid cname =
     \<lparr>container_id = cid, container_name = cname, gpu_history = [],
      last_seen_with_gpu = None, typical_memory = 0,
      is_llm = detect_llm_container cname\<rparr>"

text \<open>
  \<open>ContainerProfile.update\<close>. \<open>hs\<close> is the configuration constant \<open>HISTORY_SIZE\<close>
  (30 unless the environment overrides it). The time is read once for the entry and once
  more for \<open>last_seen_with_gpu\<close> when the GPU was visible.
\<close>

definition update ::
  "clock \<Rightarrow> nat \<Rightarrow> ContainerProfile \<Rightarrow> bool \<Rightarrow> real \<Rightarrow> nat \<Rightarrow> ContainerProfile \<times> nat" where
  "update clk hs self has_visible_gpu memory_bytes n =
     (let (t1, n1) = time_time clk n;
          self1 = self\<lparr>gpu_history :=
                    deque_append hs (gpu_history self)
                      \<lparr>timestamp = t1, visible = has_visible_gpu, memory = memory_bytes\<rparr>\<rparr>;
          (self2, n2) =
            (if has_visible_gpu
             then (let (t2, n') = time_time clk n1
                   in (self1\<lparr>last_seen_with_gpu := Some t2\<rparr>, n'))
             else (self1, n1));
          self3 =
            (if length (gpu_history self2) > 5
             then (let visible_memories =
                         map memory (filter (\<lambda>h. visible h \<and> memory h > 0) (gpu_history self2))
                   in if visible_memories \<noteq> []
                      then self2\<lparr>typical_memory :=
                             sum_list visible_memories / real (length visible_memories)\<rparr>
                      else self2)
             else self2)
      in (self3, n2))"

text \<open>
  \<open>ContainerProfile.get_gpu_likelihood_score\<close>. The test \<open>if self.last_seen_with_gpu\<close>
  is Python truthiness: \<open>None\<close> and the float \<open>0.0\<close> are both false. The time is read
  only inside that branch.
\<close>

definition get_gpu_likelihood_score :: "clock \<Rightarrow> ContainerProfile \<Rightarrow> nat \<Rightarrow> real \<times> nat" where
  "get_gpu_likelihood_score clk self n =
     (let score0 = (0::real);
          score1 = (if is_llm self then score0 + 0.5 else score0);
          (score2, n') =
            (case last_seen_with_gpu self of
               None \<Rightarrow> (score1, n)
             | Some seen \<Rightarrow>
                 if seen = 0 then (score1, n)
                 else (let (now, n1) = time_time clk n;
                           time_since_gpu = now - seen
                       in (if time_since_gpu < 300
                           then score1 + 0.3 * (1 - time_since_gpu / 300)
                           else score1, n1)));
          score3 =
            (if length (gpu_history self) > 10
             then (let gpu_count = length (filter visible (gpu_history self))
                   in score2 + 0.2 * (real gpu_count / real (length (gpu_history self))))
             else score2)
      in (min score3 1, n'))"

section \<open>The attribution engine (enhanced\_gpu\_inference.py, class EnhancedGPUInference)\<close>

text \<open>
  The readings of the collaborators are inputs of the model: the NVML devices with their
  UUID and memory counters, the rows of the \<open>nvidia-smi\<close> process query after parsing
  (\<open>pid\<close>, \<open>gpu_uuid\<close>, \<open>used_gpu_memory\<close> in MiB), the result of
  \<open>map_pid_to_container\<close> as a function of the pid, and the list returned by
  \<open>get_containers_with_gpu_access\<close>. Container dictionaries keep the two keys the engine
  reads. The model returns, per device, a report of the values the second loop of the
  cycle computes and writes to the gauges: the known and unknown memory, the
  inference-active flag, the confidence and the \<open>method='inference'\<close> allocations. The
  engine's own state is the profile store, the used-memory histories and the number of
  clock readings.
\<close>

datatype py_error = KeyError

record container =
  c_id :: string
  c_name :: string

record nvml_device =
  uuid :: string
  mem_total :: real
  mem_used :: real
  mem_free :: real

record smi_row =
  row_pid :: int
  row_gpu_uuid :: string
  row_memory_mb :: real

record gpu_process =
  pid :: int
  memory_bytes :: real

record engine =
  container_profiles :: "string \<rightharpoonup> ContainerProfile"
  memory_history :: "nat \<Rightarrow> real list"
  clock_reads :: nat

record allocation =
  a_container :: container
  a_weight :: real
  a_proportion :: real
  a_memory :: real

record gpu_report =
  r_gpu :: nat
  r_known :: real
  r_unknown :: real
  r_active :: bool
  r_confidence :: real
  r_allocations :: "allocation list"

definition EnhancedGPUInference_init :: engine where
  "EnhancedGPUInference_init =
     \<lparr>container_profiles = Map.empty, memory_history = (\<lambda>_. []), clock_reads = 0\<rparr>"

text \<open>\<open>get_total_gpu_memory\<close>: \<open>gpu_stats\<close> is the device list itself; the effect on the
  engine is one more sample in every device's bounded history.\<close>

fun track_history :: "nat \<Rightarrow> nat \<Rightarrow> nvml_device list \<Rightarrow> engine \<Rightarrow> engine" where
  "track_history hs i [] s = s"
| "track_history hs i (mem_info # rest) s =
     track_history hs (Suc i) rest
       (s\<lparr>memory_history :=
            (memory_history s)(i := deque_append hs (memory_history s i) (mem_used mem_info))\<rparr>)"

definition get_total_gpu_memory :: "nat \<Rightarrow> nvml_device list \<Rightarrow> engine \<Rightarrow> engine" where
  "get_total_gpu_memory hs devices s = track_history hs 0 devices s"

text \<open>\<open>_get_gpu_index_from_uuid\<close>: the first device whose UUID contains the given one,
  and 0 when the loop ends without a match.\<close>

fun gpu_index_loop :: "string \<Rightarrow> nat \<Rightarrow> nvml_device list \<Rightarrow> nat" where
  "gpu_index_loop u i [] = 0"
| "gpu_index_loop u i (d # rest) =
     (if str_in u (uuid d) then i else gpu_index_loop u (Suc i) rest)"

definition get_gpu_index_from_uuid :: "nvml_device list \<Rightarrow> string \<Rightarrow> nat" where
  "get_gpu_index_from_uuid devices u = gpu_index_loop u 0 devices"

text \<open>\<open>known_processes\<close> is a \<open>defaultdict(list)\<close>: an association list in insertion
  order, \<open>kp_append\<close> for \<open>known_processes[k].append(v)\<close> and \<open>kp_get\<close> for
  \<open>known_processes.get(k, [])\<close>.\<close>

fun kp_append ::
  "nat \<Rightarrow> gpu_process \<Rightarrow> (nat \<times> gpu_process list) list \<Rightarrow> (nat \<times> gpu_process list) list" where
  "kp_append k v [] = [(k, [v])]"
| "kp_append k v ((k', vs) # rest) =
     (if k = k' then (k', vs @ [v]) # rest else (k', vs) # kp_append k v rest)"

fun kp_get :: "(nat \<times> gpu_process list) list \<Rightarrow> nat \<Rightarrow> gpu_process list" where
  "kp_get [] k = []"
| "kp_get ((k', vs) # rest) k = (if k = k' then vs else kp_get rest k)"

fun known_processes_loop ::
  "nvml_device list \<Rightarrow> smi_row list \<Rightarrow> (nat \<times> gpu_process list) list \<Rightarrow>
   (nat \<times> gpu_process list) list" where
  "known_processes_loop devices [] known_processes = known_processes"
| "known_processes_loop devices (row # rest) known_processes =
     (let gpu_index = get_gpu_index_from_uuid devices (row_gpu_uuid row)
      in known_processes_loop devices rest
           (kp_append gpu_index
              \<lparr>pid = row_pid row, memory_bytes = row_memory_mb row * 1024 * 1024\<rparr>
              known_processes))"

definition get_known_gpu_processes ::
  "nvml_device list \<Rightarrow> smi_row list \<Rightarrow> (nat \<times> gpu_process list) list" where
  "get_known_gpu_processes devices rows = known_processes_loop devices rows []"

text \<open>\<open>get_container_weight\<close> (its second parameter is never read). A missing profile is
  created and stored before the weight is computed.\<close>

definition get_container_weight :: "clock \<Rightarrow> container \<Rightarrow> engine \<Rightarrow> real \<times> engine" where
  "get_container_weight clk container s =
     (let (profile, s1) =
            (case container_profiles s (c_id container) of
               Some p \<Rightarrow> (p, s)
             | None \<Rightarrow>
                 (let p = ContainerProfile_init (c_id container) (c_name container)
                  in (p, s\<lparr>container_profiles := (container_profiles s)(c_id container \<mapsto> p)\<rparr>)));
          base_weight0 = (1::real);
          base_weight1 = (if is_llm profile then base_weight0 * 2 else base_weight0);
          (likelihood, n) = get_gpu_likelihood_score clk profile (clock_reads s1);
          base_weight2 = base_weight1 * (1 + likelihood)
      in (base_weight2, s1\<lparr>clock_reads := n\<rparr>))"

text \<open>\<open>distribute_unknown_memory\<close>: the first loop fills the dictionary \<open>weights\<close> and
  the running total, the second reads the dictionary back (a missing key would raise
  \<open>KeyError\<close>) and writes one allocation per container.\<close>

fun weights_loop ::
  "clock \<Rightarrow> container list \<Rightarrow> (string \<rightharpoonup> real) \<Rightarrow> real \<Rightarrow> engine \<Rightarrow>
   (string \<rightharpoonup> real) \<times> real \<times> engine" where
  "weights_loop clk [] weights total_weight s = (weights, total_weight, s)"
| "weights_loop clk (container # rest) weights total_weight s =
     (let (weight, s') = get_container_weight clk container s
      in weights_loop clk rest (weights(c_id container \<mapsto> weight)) (total_weight + weight) s')"

fun allocate_loop ::
  "(string \<rightharpoonup> real) \<Rightarrow> real \<Rightarrow> real \<Rightarrow> container list \<Rightarrow> py_error + allocation list" where
  "allocate_loop weights total_weight unknown_memory [] = Inr []"
| "allocate_loop weights total_weight unknown_memory (container # rest) =
     (if total_weight > 0
      then (case weights (c_id container) of
              None \<Rightarrow> Inl KeyError
            | Some w \<Rightarrow>
                (let proportion = w / total_weight;
                     allocated_memory = unknown_memory * proportion
                 in case allocate_loop weights total_weight unknown_memory rest of
                      Inl e \<Rightarrow> Inl e
                    | Inr allocs \<Rightarrow>
                        Inr (\<lparr>a_container = container, a_weight = w,
                              a_proportion = proportion, a_memory = allocated_memory\<rparr> # allocs)))
      else allocate_loop weights total_weight unknown_memory rest)"

definition distribute_unknown_memory ::
  "clock \<Rightarrow> real \<Rightarrow> container list \<Rightarrow> engine \<Rightarrow> engine \<times> (py_error + allocation list)" where
  "distribute_unknown_memory clk unknown_memory unknown_containers s =
     (if unknown_containers = [] \<or> unknown_memory \<le> 0 then (s, Inr [])
      else (let (weights, total_weight, s') = weights_loop clk unknown_containers Map.empty 0 s
            in (s', allocate_loop weights total_weight unknown_memory unknown_containers)))"

text \<open>\<open>calculate_inference_confidence\<close>. The conditional expression binds weaker than
  \<open>+\<close> and \<open>/\<close>: the divisor of \<open>stability\<close> is
  \<open>(1 + variance / avg ** 2) if avg > 0 else 1\<close>.\<close>

definition calculate_inference_confidence :: "engine \<Rightarrow> nat \<Rightarrow> real \<Rightarrow> real \<Rightarrow> real" where
  "calculate_inference_confidence s gpu_idx unknown_memory total_memory =
     (if total_memory = 0 then 0
      else (let unknown_ratio = unknown_memory / total_memory;
                history = memory_history s gpu_idx
            in if length history > 10
               then (let avg = sum_list history / real (length history);
                         variance = sum_list (map (\<lambda>x. (x - avg) ^ 2) history)
                                    / real (length history);
                         stability = 1 / (if avg > 0 then 1 + variance / (avg ^ 2) else 1)
                     in unknown_ratio * stability)
               else unknown_ratio * 0.5))"

text \<open>\<open>calculate_inference\<close>, first loop: the processes of each key of
  \<open>known_processes\<close>. A process mapped to a container marks the container as known and,
  when the container already has a profile, records a visible observation.\<close>

definition observe_existing ::
  "clock \<Rightarrow> nat \<Rightarrow> string \<Rightarrow> bool \<Rightarrow> real \<Rightarrow> engine \<Rightarrow> engine" where
  "observe_existing clk hs cid has_visible_gpu mem s =
     (case container_profiles s cid of
        None \<Rightarrow> s
      | Some profile \<Rightarrow>
          (let (profile', n) = update clk hs profile has_visible_gpu mem (clock_reads s)
           in s\<lparr>container_profiles := (container_profiles s)(cid \<mapsto> profile'),
                clock_reads := n\<rparr>))"

fun known_loop ::
  "clock \<Rightarrow> nat \<Rightarrow> (int \<Rightarrow> container option) \<Rightarrow> gpu_process list \<Rightarrow> real \<Rightarrow> string set \<Rightarrow>
   engine \<Rightarrow> real \<times> string set \<times> engine" where
  "known_loop clk hs map_pid_to_container [] known_memory known_container_ids s =
     (known_memory, known_container_ids, s)"
| "known_loop clk hs map_pid_to_container (proc # rest) known_memory known_container_ids s =
     (let known_memory' = known_memory + memory_bytes proc
      in case map_pid_to_container (pid proc) of
           None \<Rightarrow> known_loop clk hs map_pid_to_container rest known_memory' known_container_ids s
         | Some container \<Rightarrow>
             known_loop clk hs map_pid_to_container rest known_memory'
               (insert (c_id container) known_container_ids)
               (observe_existing clk hs (c_id container) True (memory_bytes proc) s))"

fun known_gpus_loop ::
  "clock \<Rightarrow> nat \<Rightarrow> (int \<Rightarrow> container option) \<Rightarrow> (nat \<times> gpu_process list) list \<Rightarrow> string set \<Rightarrow>
   engine \<Rightarrow> (nat \<times> real) list \<times> string set \<times> engine" where
  "known_gpus_loop clk hs map_pid_to_container [] known_container_ids s =
     ([], known_container_ids, s)"
| "known_gpus_loop clk hs map_pid_to_container ((gpu_idx, processes) # rest) known_container_ids s =
     (let (known_memory, ids', s') =
            known_loop clk hs map_pid_to_container processes 0 known_container_ids s;
          (gauges, ids'', s'') = known_gpus_loop clk hs map_pid_to_container rest ids' s'
      in ((gpu_idx, known_memory) # gauges, ids'', s''))"

text \<open>Second loop, per device: the containers with GPU access that no known process
  was mapped to; each of them that already has a profile records an invisible
  observation (\<open>update(False)\<close>, memory 0).\<close>

fun find_unknown ::
  "clock \<Rightarrow> nat \<Rightarrow> string set \<Rightarrow> container list \<Rightarrow> engine \<Rightarrow> container list \<times> engine" where
  "find_unknown clk hs known_container_ids [] s = ([], s)"
| "find_unknown clk hs known_container_ids (container # rest) s =
     (if c_id container \<notin> known_container_ids
      then (let (unknown_containers, s') =
                  find_unknown clk hs known_container_ids rest
                    (observe_existing clk hs (c_id container) False 0 s)
            in (container # unknown_containers, s'))
      else find_unknown clk hs known_container_ids rest s)"

definition process_gpu ::
  "clock \<Rightarrow> nat \<Rightarrow> (nat \<times> gpu_process list) list \<Rightarrow> container list \<Rightarrow> string set \<Rightarrow> nat \<Rightarrow>
   nvml_device \<Rightarrow> engine \<Rightarrow> engine \<times> (py_error + gpu_report)" where
  "process_gpu clk hs known_processes gpu_containers known_container_ids gpu_idx dev s =
     (let total_used = mem_used dev;
          known_used = sum_list (map memory_bytes (kp_get known_processes gpu_idx));
          unknown_used = max 0 (total_used - known_used);
          (unknown_containers, s1) = find_unknown clk hs known_container_ids gpu_containers s
      in if unknown_used > 0
         then (let confidence = calculate_inference_confidence s1 gpu_idx unknown_used total_used;
                   (s2, r) = distribute_unknown_memory clk unknown_used unknown_containers s1
               in (s2, case r of
                         Inl e \<Rightarrow> Inl e
                       | Inr allocs \<Rightarrow>
                           Inr \<lparr>r_gpu = gpu_idx, r_known = known_used, r_unknown = unknown_used,
                                r_active = True, r_confidence = confidence,
                                r_allocations = allocs\<rparr>))
         else (s1, Inr \<lparr>r_gpu = gpu_idx, r_known = known_used, r_unknown = unknown_used,
                        r_active = False, r_confidence = 0, r_allocations = []\<rparr>))"

fun gpus_loop ::
  "clock \<Rightarrow> nat \<Rightarrow> (nat \<times> gpu_process list) list \<Rightarrow> container list \<Rightarrow> string set \<Rightarrow> nat \<Rightarrow>
   nvml_device list \<Rightarrow> engine \<Rightarrow> engine \<times> (py_error + gpu_report list)" where
  "gpus_loop clk hs known_processes gpu_containers known_container_ids gpu_idx [] s = (s, Inr [])"
| "gpus_loop clk hs known_processes gpu_containers known_container_ids gpu_idx (dev # rest) s =
     (case process_gpu clk hs known_processes gpu_containers known_container_ids gpu_idx dev s of
        (s', Inl e) \<Rightarrow> (s', Inl e)
      | (s', Inr report) \<Rightarrow>
          (case gpus_loop clk hs known_processes gpu_containers known_container_ids
                  (Suc gpu_idx) rest s' of
             (s'', Inl e) \<Rightarrow> (s'', Inl e)
           | (s'', Inr reports) \<Rightarrow> (s'', Inr (report # reports))))"

definition calculate_inference ::
  "clock \<Rightarrow> nat \<Rightarrow> nvml_device list \<Rightarrow> smi_row list \<Rightarrow> (int \<Rightarrow> container option) \<Rightarrow>
   container list \<Rightarrow> engine \<Rightarrow> engine \<times> (py_error + gpu_report list)" where
  "calculate_inference clk hs devices rows map_pid_to_container gpu_containers s =
     (let s1 = get_total_gpu_memory hs devices s;
          known_processes = get_known_gpu_processes devices rows;
          (gauges, known_container_ids, s2) =
            known_gpus_loop clk hs map_pid_to_container known_processes {} s1
      in gpus_loop clk hs known_processes gpu_containers known_container_ids 0 devices s2)"

section \<open>The other exporters' per-device computation\<close>

text \<open>gpu\_inference\_exporter.py, \<open>GPUMemoryInference.calculate_inference\<close>: unknown
  memory and the flag of one device, from \<open>gpu_stats[gpu_idx]['used']\<close> and
  \<open>known_memory_per_gpu.get(gpu_idx, 0)\<close>.\<close>

definition basic_unknown_used :: "real \<Rightarrow> real \<Rightarrow> real" where
  "basic_unknown_used total_used known_used = max 0 (total_used - known_used)"

definition basic_inference_active :: "real \<Rightarrow> real \<Rightarrow> bool" where
  "basic_inference_active total_used known_used =
     (if basic_unknown_used total_used known_used > 0 then True else False)"

text \<open>mega\_exporter.py, \<open>collect_gpu_metrics\<close>, and unified\_exporter.py,
  \<open>collect_gpu_inference_metrics\<close>: the byte counts are Python integers from NVML.
  The process query can raise (\<open>None\<close> here), and \<open>usedGpuMemory\<close> of a process can be
  \<open>None\<close>, on which \<open>sum\<close> raises; both exporters catch the exception.\<close>

fun py_sum :: "int option list \<Rightarrow> int option" where
  "py_sum [] = Some 0"
| "py_sum (None # rest) = None"
| "py_sum (Some v # rest) = (case py_sum rest of None \<Rightarrow> None | Some t \<Rightarrow> Some (v + t))"

record mega_gpu =
  memory_known :: int
  memory_unknown :: int
  inference_active :: bool

definition mega_process_inference :: "int \<Rightarrow> int option list option \<Rightarrow> mega_gpu" where
  "mega_process_inference used processes =
     (case (case processes of None \<Rightarrow> None | Some ps \<Rightarrow> py_sum ps) of
        None \<Rightarrow> \<lparr>memory_known = 0, memory_unknown = 0, inference_active = False\<rparr>
      | Some known_memory \<Rightarrow>
          (let unknown_memory = max 0 (used - known_memory)
           in if unknown_memory > 100 * 1024 * 1024
              then \<lparr>memory_known = known_memory, memory_unknown = unknown_memory,
                    inference_active = True\<rparr>
              else \<lparr>memory_known = known_memory, memory_unknown = unknown_memory,
                    inference_active = False\<rparr>))"

text \<open>The unified exporter keeps no local flag: the result is the value written to the
  gauge \<open>gpu_inference_active\<close>, or \<open>None\<close> when the exception left the gauge alone.\<close>

definition unified_inference_gauge :: "int \<Rightarrow> int option list option \<Rightarrow> (int \<times> bool) option" where
  "unified_inference_gauge used_memory processes =
     (case (case processes of None \<Rightarrow> None | Some ps \<Rightarrow> py_sum ps) of
        None \<Rightarrow> None
      | Some known_memory \<Rightarrow>
          (let unknown_memory = max 0 (used_memory - known_memory)
           in if unknown_memory > 100 * 1024 * 1024
              then Some (unknown_memory, True)
              else Some (unknown_memory, False)))"

section \<open>The probe detector (enhanced\_ollama\_exporter.py, class InferenceDetector)\<close>

text \<open>
  The detector's history and the gauges it writes form one state. Its three methods
  that touch the state run under the detector's lock, so they are the atomic steps; each
  takes the clock reading it makes as an argument. An HTTP request of
  \<open>check_inference\<close> ends in one of three ways: \<open>requests.exceptions.Timeout\<close>
  (the generate probe is sent with \<open>timeout=0.5\<close>), a response after the measured
  \<open>response_time\<close>, or any other exception.
\<close>

datatype probe = Timeout | Responded real | Failed

record detector =
  inference_history :: "real list"
  ollama_inference_active :: bool
  ollama_gpu_likely_active :: real
  ollama_last_inference_timestamp :: real
  ollama_inference_requests_total :: nat

definition InferenceDetector_init :: detector where
  "InferenceDetector_init =
     \<lparr>inference_history = [], ollama_inference_active = False, ollama_gpu_likely_active = 0,
      ollama_last_inference_timestamp = 0, ollama_inference_requests_total = 0\<rparr>"

definition mark_inference_active :: "real \<Rightarrow> detector \<Rightarrow> detector" where
  "mark_inference_active current_time s =
     s\<lparr>inference_history := deque_append 10 (inference_history s) current_time,
       ollama_inference_active := True,
       ollama_gpu_likely_active := 1,
       ollama_last_inference_timestamp := current_time,
       ollama_inference_requests_total := Suc (ollama_inference_requests_total s)\<rparr>"

definition mark_inference_likely_active :: "real \<Rightarrow> detector \<Rightarrow> detector" where
  "mark_inference_likely_active likelihood s = s\<lparr>ollama_gpu_likely_active := likelihood\<rparr>"

definition update_status :: "real \<Rightarrow> detector \<Rightarrow> detector" where
  "update_status current_time s =
     (let recent_inferences = filter (\<lambda>t. current_time - t < 30) (inference_history s)
      in if recent_inferences \<noteq> []
         then (let time_since_last = current_time - Max (set recent_inferences);
                   likelihood = max 0 (1 - time_since_last / 30)
               in s\<lparr>ollama_inference_active := True, ollama_gpu_likely_active := likelihood\<rparr>)
         else s\<lparr>ollama_inference_active := False, ollama_gpu_likely_active := 0\<rparr>)"

text \<open>\<open>check_inference\<close>, method 1 (the generate probe) and method 2 (the tags request).\<close>

definition probe_generate :: "probe \<Rightarrow> real \<Rightarrow> detector \<Rightarrow> detector" where
  "probe_generate outcome current_time s =
     (case outcome of
        Responded response_time \<Rightarrow>
          if response_time > 0.3 then mark_inference_active current_time s else s
      | Timeout \<Rightarrow> mark_inference_active current_time s
      | Failed \<Rightarrow> s)"

definition probe_tags :: "probe \<Rightarrow> detector \<Rightarrow> detector" where
  "probe_tags outcome s =
     (case outcome of
        Responded response_time \<Rightarrow>
          if response_time > 0.5 then mark_inference_likely_active 0.7 s else s
      | Timeout \<Rightarrow> s
      | Failed \<Rightarrow> s)"

definition check_inference :: "probe \<Rightarrow> real \<Rightarrow> probe \<Rightarrow> detector \<Rightarrow> detector" where
  "check_inference generate_outcome current_time tags_outcome s =
     probe_tags tags_outcome (probe_generate generate_outcome current_time s)"

text \<open>A run of the detector: the two threads' steps in the order in which they take
  the lock. \<open>Generate\<close> carries the reading \<open>mark_inference_active\<close> makes if it is
  called, \<open>Status\<close> the reading of \<open>update_status\<close>.\<close>

datatype event = Generate probe real | Tags probe | Status real

fun detector_step :: "detector \<Rightarrow> event \<Rightarrow> detector" where
  "detector_step s (Generate outcome t) = probe_generate outcome t s"
| "detector_step s (Tags outcome) = probe_tags outcome s"
| "detector_step s (Status t) = update_status t s"

fun detector_run :: "detector \<Rightarrow> event list \<Rightarrow> detector" where
  "detector_run s [] = s"
| "detector_run s (e # es) = detector_run (detector_step s e) es"

text \<open>The clock readings of a run, and the times of its qualifying observations: the
  generate probes that timed out or answered after more than 0.3 s.\<close>

fun event_times :: "event list \<Rightarrow> real list" where
  "event_times [] = []"
| "event_times (Generate outcome t # es) = t # event_times es"
| "event_times (Tags outcome # es) = event_times es"
| "event_times (Status t # es) = t # event_times es"

fun qualifying :: "event \<Rightarrow> bool" where
  "qualifying (Generate Timeout t) = True"
| "qualifying (Generate (Responded response_time) t) = (response_time > 0.3)"
| "qualifying (Generate Failed t) = False"
| "qualifying (Tags outcome) = False"
| "qualifying (Status t) = False"

fun observation_times :: "event list \<Rightarrow> real list" where
  "observation_times [] = []"
| "observation_times (Generate outcome t # es) =
     (if qualifying (Generate outcome t) then t # observation_times es else observation_times es)"
| "observation_times (e # es) = observation_times es"

section \<open>The stability factor in the specification's words\<close>

text \<open>Mean and population variance of the used-memory samples, and the stability
  factor as the specification states it: \<open>1 / (1 + variance / mean\<^sup>2)\<close> once the
  history has more than 10 samples, and 0.5 otherwise.\<close>

definition mean :: "real list \<Rightarrow> real" where
  "mean xs = sum_list xs / real (length xs)"

definition variance :: "real list \<Rightarrow> real" where
  "variance xs = sum_list (map (\<lambda>x. (x - mean xs) ^ 2) xs) / real (length xs)"

definition spec_stability :: "real list \<Rightarrow> real" where
  "spec_stability history =
     (if length history > 10 then 1 / (1 + variance history / (mean history) ^ 2) else 0.5)"

section \<open>The scenario of the specification\<close>

text \<open>One device with 16 GiB total and 10 GiB used; one known process of 2 GiB
  (2048 MiB in the process query) mapped to container A; GPU access for A and for the
  containers B, named \<open>ollama\<close>, and C, named \<open>web\<close>; a freshly started engine, so that
  B and C have never been seen visible and have no history.\<close>

definition GiB :: real where
  "GiB = 1024 * 1024 * 1024"

definition scenario_devices :: "nvml_device list" where
  "scenario_devices =
     [\<lparr>uuid = ''GPU-0'', mem_total = 16 * GiB, mem_used = 10 * GiB, mem_free = 6 * GiB\<rparr>]"

text \<open>A variant in which the known process accounts for all the used memory.\<close>

definition scenario_idle_devices :: "nvml_device list" where
  "scenario_idle_devices =
     [\<lparr>uuid = ''GPU-0'', mem_total = 16 * GiB, mem_used = 2 * GiB, mem_free = 14 * GiB\<rparr>]"

definition scenario_rows :: "smi_row list" where
  "scenario_rows = [\<lparr>row_pid = 100, row_gpu_uuid = ''GPU-0'', row_memory_mb = 2048\<rparr>]"

definition scenario_A :: container where
  "scenario_A = \<lparr>c_id = ''aaaaaaaaaaaa'', c_name = ''redis''\<rparr>"

definition scenario_B :: container where
  "scenario_B = \<lparr>c_id = ''bbbbbbbbbbbb'', c_name = ''ollama''\<rparr>"

definition scenario_C :: container where
  "scenario_C = \<lparr>c_id = ''cccccccccccc'', c_name = ''web''\<rparr>"

definition scenario_map_pid :: "int \<Rightarrow> container option" where
  "scenario_map_pid p = (if p = 100 then Some scenario_A else None)"

section \<open>The resolved containers of a cycle\<close>

text \<open>The identifiers of the containers that some row of the process query is mapped
  to: the value of \<open>known_container_ids\<close> after the first loop of a cycle. A container
  with GPU access whose identifier is not among them is unresolved.\<close>

definition resolved_ids :: "(int \<Rightarrow> container option) \<Rightarrow> smi_row list \<Rightarrow> string set" where
  "resolved_ids map_pid_to_container rows =
     set (map c_id (List.map_filter (\<lambda>row. map_pid_to_container (row_pid row)) rows))"

text \<open>All processes of \<open>known_processes\<close>, over all keys.\<close>

definition all_processes :: "(nat \<times> gpu_process list) list \<Rightarrow> gpu_process list" where
  "all_processes known_processes = concat (map snd known_processes)"

section \<open>Properties of the container profiles\<close>

lemma detect_ollama_worker: "detect_llm_container ''ollama-worker''"
  by code_simp

lemma detect_nginx: "\<not> detect_llm_container ''nginx''"
  by code_simp

lemma detect_ollama: "detect_llm_container ''ollama''"
  by code_simp

lemma detect_web: "\<not> detect_llm_container ''web''"
  by code_simp

lemma score_lower: "0 \<le> fst (get_gpu_likelihood_score clk p n)"
  by (auto simp: get_gpu_likelihood_score_def time_time_def Let_def
      split: option.splits prod.splits if_splits)

lemma score_upper: "fst (get_gpu_likelihood_score clk p n) \<le> 1"
  by (simp add: get_gpu_likelihood_score_def Let_def split: option.splits prod.splits)

lemma score_lower_pair: "get_gpu_likelihood_score clk p n = (x, n') \<Longrightarrow> 0 \<le> x"
  using score_lower [of clk p n] by simp

text \<open>A profile that was never seen with a visible GPU process scores its name bonus
  only, and reads no time.\<close>

lemma score_never_visible:
  assumes "last_seen_with_gpu p = None" "\<forall>h\<in>set (gpu_history p). \<not> visible h"
  shows "get_gpu_likelihood_score clk p n = (if is_llm p then 0.5 else 0, n)"
proof -
  have "filter visible (gpu_history p) = []"
    using assms(2) by (simp add: filter_empty_conv)
  then show ?thesis
    using assms(1) by (simp add: get_gpu_likelihood_score_def Let_def)
qed

text \<open>
  Claim C5. The likelihood score of every profile, at every clock reading, lies in
  \<open>[0, 1]\<close>. Of two profiles that differ only in identity and name, one named
  \<open>ollama-worker\<close> and one named \<open>nginx\<close>, both with the cached name flag computed from
  their name, with the same history holding no visible entry and never seen with a visible
  GPU process, the one named \<open>ollama-worker\<close> scores strictly higher.
\<close>

theorem C5_likelihood_score:
  "0 \<le> fst (get_gpu_likelihood_score clk p n) \<and>
   fst (get_gpu_likelihood_score clk p n) \<le> 1 \<and>
   (container_name a = ''ollama-worker'' \<and> is_llm a = detect_llm_container (container_name a) \<and>
    container_name b = ''nginx'' \<and> is_llm b = detect_llm_container (container_name b) \<and>
    gpu_history a = gpu_history b \<and>
    last_seen_with_gpu a = None \<and> last_seen_with_gpu b = None \<and>
    (\<forall>h\<in>set (gpu_history a). \<not> visible h)
    \<longrightarrow> fst (get_gpu_likelihood_score clk b n) < fst (get_gpu_likelihood_score clk a n))"
proof (intro conjI impI)
  show "0 \<le> fst (get_gpu_likelihood_score clk p n)" by (rule score_lower)
  show "fst (get_gpu_likelihood_score clk p n) \<le> 1" by (rule score_upper)
next
  assume h: "container_name a = ''ollama-worker'' \<and> is_llm a = detect_llm_container (container_name a) \<and>
    container_name b = ''nginx'' \<and> is_llm b = detect_llm_container (container_name b) \<and>
    gpu_history a = gpu_history b \<and>
    last_seen_with_gpu a = None \<and> last_seen_with_gpu b = None \<and>
    (\<forall>h\<in>set (gpu_history a). \<not> visible h)"
  from h have na: "container_name a = ''ollama-worker''" and nb: "container_name b = ''nginx''"
    and ia: "is_llm a = detect_llm_container (container_name a)"
    and ib: "is_llm b = detect_llm_container (container_name b)"
    and hist: "gpu_history a = gpu_history b"
    and sa: "last_seen_with_gpu a = None" and sb: "last_seen_with_gpu b = None"
    and nv: "\<forall>h\<in>set (gpu_history a). \<not> visible h"
    by blast+
  have la: "is_llm a" unfolding ia na by (rule detect_ollama_worker)
  have lb: "\<not> is_llm b" unfolding ib nb by (rule detect_nginx)
  have "get_gpu_likelihood_score clk a n = (0.5, n)"
    using score_never_visible [OF sa nv, of clk n] la by simp
  moreover have "get_gpu_likelihood_score clk b n = (0, n)"
    using score_never_visible [OF sb, of clk n] nv lb hist by simp
  ultimately show "fst (get_gpu_likelihood_score clk b n) < fst (get_gpu_likelihood_score clk a n)"
    by simp
qed

theorem C5_likelihood_score_witness:
  "fst (get_gpu_likelihood_score (\<lambda>_. 0)
          ((ContainerProfile_init ''c2'' ''nginx'')
             \<lparr>gpu_history := [\<lparr>timestamp = 1, visible = False, memory = 0\<rparr>]\<rparr>) 0)
   < fst (get_gpu_likelihood_score (\<lambda>_. 0)
          ((ContainerProfile_init ''c1'' ''ollama-worker'')
             \<lparr>gpu_history := [\<lparr>timestamp = 1, visible = False, memory = 0\<rparr>]\<rparr>) 0)"
proof -
  let ?h = "[\<lparr>timestamp = 1, visible = False, memory = 0\<rparr>]"
  let ?a = "(ContainerProfile_init ''c1'' ''ollama-worker'')\<lparr>gpu_history := ?h\<rparr>"
  let ?b = "(ContainerProfile_init ''c2'' ''nginx'')\<lparr>gpu_history := ?h\<rparr>"
  have "container_name ?a = ''ollama-worker'' \<and> is_llm ?a = detect_llm_container (container_name ?a) \<and>
    container_name ?b = ''nginx'' \<and> is_llm ?b = detect_llm_container (container_name ?b) \<and>
    gpu_history ?a = gpu_history ?b \<and>
    last_seen_with_gpu ?a = None \<and> last_seen_with_gpu ?b = None \<and>
    (\<forall>h\<in>set (gpu_history ?a). \<not> visible h)"
    by (simp add: ContainerProfile_init_def)
  with C5_likelihood_score [of "\<lambda>_. 0" ?a 0 ?a ?b] show ?thesis
    by blast
qed

section \<open>Properties of the weighting and the distribution\<close>

lemma get_container_weight_ge1: "1 \<le> fst (get_container_weight clk c s)"
  by (auto simp: get_container_weight_def Let_def split: option.splits prod.splits
      dest!: score_lower_pair)

lemma get_container_weight_dom:
  "dom (container_profiles (snd (get_container_weight clk c s))) =
   insert (c_id c) (dom (container_profiles s))"
  by (auto simp: get_container_weight_def Let_def split: option.splits prod.splits)

text \<open>The first loop of the distribution, for containers with pairwise different
  identifiers: every container's key holds a weight of at least 1, the running total is
  the sum of the stored weights, and no other key is touched.\<close>

lemma weights_loop_sound:
  assumes "weights_loop clk cs w tw s = (w', tw', s')" "distinct (map c_id cs)"
  shows "tw' = tw + sum_list (map (\<lambda>c. the (w' (c_id c))) cs) \<and>
         (\<forall>c\<in>set cs. \<exists>x. w' (c_id c) = Some x \<and> 1 \<le> x) \<and>
         (\<forall>k. k \<notin> c_id ` set cs \<longrightarrow> w' k = w k)"
  using assms
proof (induction cs arbitrary: w tw s)
  case Nil
  then show ?case by simp
next
  case (Cons c cs)
  obtain wt s1 where g: "get_container_weight clk c s = (wt, s1)"
    by (cases "get_container_weight clk c s")
  have wt1: "1 \<le> wt" using get_container_weight_ge1 [of clk c s] g by simp
  from Cons.prems(1) g
  have loop: "weights_loop clk cs (w(c_id c \<mapsto> wt)) (tw + wt) s1 = (w', tw', s')" by simp
  from Cons.prems(2) have d: "distinct (map c_id cs)" and notin: "c_id c \<notin> c_id ` set cs"
    by simp_all
  note IH = Cons.IH [OF loop d]
  from IH notin have here: "w' (c_id c) = Some wt" by simp
  from IH have tot: "tw' = tw + wt + sum_list (map (\<lambda>c. the (w' (c_id c))) cs)" by blast
  have 1: "tw' = tw + sum_list (map (\<lambda>c. the (w' (c_id c))) (c # cs))"
    using tot here by simp
  have 2: "\<forall>c'\<in>set (c # cs). \<exists>x. w' (c_id c') = Some x \<and> 1 \<le> x"
    using IH here wt1 by simp
  have 3: "\<forall>k. k \<notin> c_id ` set (c # cs) \<longrightarrow> w' k = w k"
    using IH by simp
  from 1 2 3 show ?case by blast
qed

text \<open>Without the assumption on the identifiers, every container's key is still
  present after the first loop, so the second loop never raises.\<close>

lemma weights_loop_keys:
  assumes "weights_loop clk cs w tw s = (w', tw', s')"
  shows "(\<forall>c\<in>set cs. w' (c_id c) \<noteq> None) \<and> (\<forall>k. w k \<noteq> None \<longrightarrow> w' k \<noteq> None)"
  using assms
proof (induction cs arbitrary: w tw s)
  case Nil
  then show ?case by simp
next
  case (Cons c cs)
  obtain wt s1 where g: "get_container_weight clk c s = (wt, s1)"
    by (cases "get_container_weight clk c s")
  from Cons.prems g
  have loop: "weights_loop clk cs (w(c_id c \<mapsto> wt)) (tw + wt) s1 = (w', tw', s')" by simp
  note IH = Cons.IH [OF loop]
  from IH have "w' (c_id c) \<noteq> None" by simp
  moreover from IH have "\<forall>k. w k \<noteq> None \<longrightarrow> w' k \<noteq> None" by simp
  ultimately show ?case using IH by simp
qed

lemma weights_loop_dom:
  assumes "weights_loop clk cs w tw s = (w', tw', s')"
  shows "dom (container_profiles s') = dom (container_profiles s) \<union> c_id ` set cs"
  using assms
proof (induction cs arbitrary: w tw s)
  case Nil
  then show ?case by simp
next
  case (Cons c cs)
  obtain wt s1 where g: "get_container_weight clk c s = (wt, s1)"
    by (cases "get_container_weight clk c s")
  from Cons.prems g
  have loop: "weights_loop clk cs (w(c_id c \<mapsto> wt)) (tw + wt) s1 = (w', tw', s')" by simp
  have "dom (container_profiles s1) = insert (c_id c) (dom (container_profiles s))"
    using get_container_weight_dom [of clk c s] g by simp
  with Cons.IH [OF loop] show ?case by auto
qed

lemma allocate_loop_eq:
  assumes "0 < tw" "\<forall>c\<in>set cs. w (c_id c) \<noteq> None"
  shows "allocate_loop w tw u cs =
         Inr (map (\<lambda>c. \<lparr>a_container = c, a_weight = the (w (c_id c)),
                          a_proportion = the (w (c_id c)) / tw,
                          a_memory = u * (the (w (c_id c)) / tw)\<rparr>) cs)"
  using assms by (induction cs) (auto simp: Let_def)

lemma allocate_loop_total:
  assumes "\<forall>c\<in>set cs. w (c_id c) \<noteq> None"
  shows "\<exists>allocs. allocate_loop w tw u cs = Inr allocs"
  using assms by (induction cs) (auto simp: Let_def)

lemma distribute_total:
  "\<exists>allocs. snd (distribute_unknown_memory clk u cs s) = Inr allocs"
proof (cases "cs = [] \<or> u \<le> 0")
  case True
  then show ?thesis by (auto simp: distribute_unknown_memory_def)
next
  case False
  obtain w tw s' where loop: "weights_loop clk cs Map.empty 0 s = (w, tw, s')"
    by (cases "weights_loop clk cs Map.empty 0 s") auto
  from weights_loop_keys [OF loop] have "\<forall>c\<in>set cs. w (c_id c) \<noteq> None" by simp
  from allocate_loop_total [OF this, of tw u] False loop show ?thesis
    by (simp add: distribute_unknown_memory_def)
qed

lemma distribute_dom:
  "dom (container_profiles (fst (distribute_unknown_memory clk u cs s))) =
   (if cs = [] \<or> u \<le> 0 then dom (container_profiles s)
    else dom (container_profiles s) \<union> c_id ` set cs)"
proof (cases "cs = [] \<or> u \<le> 0")
  case True
  then show ?thesis by (auto simp: distribute_unknown_memory_def)
next
  case False
  obtain w tw s' where loop: "weights_loop clk cs Map.empty 0 s = (w, tw, s')"
    by (cases "weights_loop clk cs Map.empty 0 s") auto
  from weights_loop_dom [OF loop] False loop show ?thesis
    by (simp add: distribute_unknown_memory_def)
qed

lemma sum_list_div_const:
  "sum_list (map (\<lambda>x. f x / k) xs) = sum_list (map f xs) / (k::real)"
  by (induction xs) (simp_all add: add_divide_distrib)

lemma sum_list_scaled:
  "sum_list (map (\<lambda>x. u * f x / k) xs) = u * sum_list (map f xs) / (k::real)"
  by (induction xs) (simp_all add: add_divide_distrib distrib_left)

lemma elem_le_sum_list_real:
  "\<forall>x\<in>set xs. 0 \<le> f x \<Longrightarrow> y \<in> set xs \<Longrightarrow> f y \<le> sum_list (map f xs :: real list)"
proof (induction xs)
  case Nil
  then show ?case by simp
next
  case (Cons a xs)
  have nn: "0 \<le> sum_list (map f xs)"
    using Cons.prems(1) by (intro sum_list_nonneg) auto
  show ?case
  proof (cases "y = a")
    case True
    then show ?thesis using nn by simp
  next
    case False
    then have "f y \<le> sum_list (map f xs)" using Cons by simp
    moreover have "0 \<le> f a" using Cons.prems(1) by simp
    ultimately show ?thesis by simp
  qed
qed

lemma share_bounds:
  assumes "0 < (u::real)" "0 \<le> x" "x \<le> t" "0 < t"
  shows "0 \<le> u * (x / t) \<and> u * (x / t) \<le> u"
proof -
  have a: "0 \<le> x / t" using assms by simp
  have b: "x / t \<le> 1" using assms by simp
  have "u * (x / t) \<le> u * 1"
    using b assms(1) by (intro mult_left_mono) simp_all
  moreover have "0 \<le> u * (x / t)"
    using a assms(1) by (intro mult_nonneg_nonneg) simp_all
  ultimately show ?thesis by simp
qed

text \<open>
  Claim C2. For positive unknown memory and a non-empty list of unresolved containers
  with pairwise different identifiers, \<open>distribute_unknown_memory\<close> returns one
  allocation per container, in order. Every weight is at least 1, every proportion is the
  weight divided by the total weight, the proportions sum to 1, every allocation is the
  unknown memory times the proportion and lies between 0 and the unknown memory, and the
  allocations sum to the unknown memory (in exact arithmetic on the reals).
\<close>

theorem C2_distribution_normalised:
  assumes u: "0 < unknown_memory" and ne: "cs \<noteq> []" and d: "distinct (map c_id cs)"
  shows "\<exists>allocs. snd (distribute_unknown_memory clk unknown_memory cs s) = Inr allocs \<and>
           map a_container allocs = cs \<and>
           sum_list (map a_proportion allocs) = 1 \<and>
           sum_list (map a_memory allocs) = unknown_memory \<and>
           (\<forall>a\<in>set allocs. 1 \<le> a_weight a \<and>
                a_proportion a = a_weight a / sum_list (map a_weight allocs) \<and>
                a_memory a = unknown_memory * a_proportion a \<and>
                0 \<le> a_memory a \<and> a_memory a \<le> unknown_memory)"
proof -
  obtain w tw s' where loop: "weights_loop clk cs Map.empty 0 s = (w, tw, s')"
    by (cases "weights_loop clk cs Map.empty 0 s") auto
  let ?f = "\<lambda>c. the (w (c_id c))"
  from weights_loop_sound [OF loop d]
  have tw: "tw = sum_list (map ?f cs)"
    and some: "\<forall>c\<in>set cs. \<exists>x. w (c_id c) = Some x \<and> 1 \<le> x"
    by simp_all
  have ge1: "\<forall>c\<in>set cs. 1 \<le> ?f c" using some by fastforce
  then have nn: "\<forall>c\<in>set cs. 0 \<le> ?f c" by fastforce
  obtain c0 where c0: "c0 \<in> set cs" using ne by (cases cs) auto
  have "?f c0 \<le> tw" unfolding tw using nn c0 by (rule elem_le_sum_list_real)
  with ge1 c0 have pos: "0 < tw" by fastforce
  have dom: "\<forall>c\<in>set cs. w (c_id c) \<noteq> None" using some by fastforce
  let ?allocs = "map (\<lambda>c. \<lparr>a_container = c, a_weight = ?f c,
                          a_proportion = ?f c / tw,
                          a_memory = unknown_memory * (?f c / tw)\<rparr>) cs"
  have res: "snd (distribute_unknown_memory clk unknown_memory cs s) = Inr ?allocs"
    using u ne loop allocate_loop_eq [OF pos dom, of unknown_memory]
    by (simp add: distribute_unknown_memory_def)
  have c1: "map a_container ?allocs = cs" by (simp add: comp_def)
  have wsum: "sum_list (map a_weight ?allocs) = tw" by (simp add: comp_def tw)
  have c2: "sum_list (map a_proportion ?allocs) = 1"
    using pos by (simp add: comp_def sum_list_div_const tw [symmetric])
  have c3: "sum_list (map a_memory ?allocs) = unknown_memory"
    using pos by (simp add: comp_def sum_list_scaled tw [symmetric])
  have c4: "\<forall>a\<in>set ?allocs. 1 \<le> a_weight a \<and>
                a_proportion a = a_weight a / sum_list (map a_weight ?allocs) \<and>
                a_memory a = unknown_memory * a_proportion a \<and>
                0 \<le> a_memory a \<and> a_memory a \<le> unknown_memory"
  proof
    fix a assume "a \<in> set ?allocs"
    then obtain c where c: "c \<in> set cs" and a: "a = \<lparr>a_container = c, a_weight = ?f c,
                          a_proportion = ?f c / tw,
                          a_memory = unknown_memory * (?f c / tw)\<rparr>"
      by auto
    have le: "?f c \<le> tw" unfolding tw using nn c by (rule elem_le_sum_list_real)
    have f0: "0 \<le> ?f c" using nn c by simp
    have "0 \<le> unknown_memory * (?f c / tw) \<and> unknown_memory * (?f c / tw) \<le> unknown_memory"
      using u f0 le pos by (rule share_bounds)
    then show "1 \<le> a_weight a \<and>
                a_proportion a = a_weight a / sum_list (map a_weight ?allocs) \<and>
                a_memory a = unknown_memory * a_proportion a \<and>
                0 \<le> a_memory a \<and> a_memory a \<le> unknown_memory"
      unfolding wsum using ge1 c by (simp add: a)
  qed
  from res c1 c2 c3 c4 show ?thesis by blast
qed

theorem C2_distribution_normalised_witness:
  "\<exists>allocs. snd (distribute_unknown_memory (\<lambda>_. 0) 8
                 [\<lparr>c_id = ''bbb'', c_name = ''ollama''\<rparr>, \<lparr>c_id = ''ccc'', c_name = ''web''\<rparr>]
                 EnhancedGPUInference_init) = Inr allocs \<and>
            sum_list (map a_proportion allocs) = 1 \<and>
            sum_list (map a_memory allocs) = 8"
proof -
  let ?cs = "[\<lparr>c_id = ''bbb'', c_name = ''ollama''\<rparr>, \<lparr>c_id = ''ccc'', c_name = ''web''\<rparr>]"
  have h1: "0 < (8::real)" by simp
  have h2: "?cs \<noteq> []" by simp
  have h3: "distinct (map c_id ?cs)" by simp
  from C2_distribution_normalised [OF h1 h2 h3, of "\<lambda>_. 0" EnhancedGPUInference_init]
  show ?thesis by blast
qed

section \<open>Properties of one device's step\<close>

lemma observe_existing_dom:
  "dom (container_profiles (observe_existing clk hs cid v m s)) = dom (container_profiles s)"
  by (auto simp: observe_existing_def Let_def split: option.splits prod.splits)

lemma observe_existing_history:
  "memory_history (observe_existing clk hs cid v m s) = memory_history s"
  by (simp add: observe_existing_def Let_def split: option.splits prod.splits)

lemma find_unknown_fst:
  "fst (find_unknown clk hs ids cs s) = filter (\<lambda>c. c_id c \<notin> ids) cs"
  by (induction cs arbitrary: s) (simp_all add: case_prod_beta)

lemma find_unknown_dom:
  "dom (container_profiles (snd (find_unknown clk hs ids cs s))) = dom (container_profiles s)"
  by (induction cs arbitrary: s) (simp_all add: case_prod_beta observe_existing_dom)

lemma find_unknown_history:
  "memory_history (snd (find_unknown clk hs ids cs s)) = memory_history s"
  by (induction cs arbitrary: s) (simp_all add: case_prod_beta observe_existing_history)

text \<open>The report of one device: the step never raises, and every field is determined
  by the used memory, the known processes of the device and the state after the
  invisible observations.\<close>

lemma process_gpu_report:
  "\<exists>allocs. snd (process_gpu clk hs kp gcs ids gpu_idx dev s) =
     Inr \<lparr>r_gpu = gpu_idx,
          r_known = sum_list (map memory_bytes (kp_get kp gpu_idx)),
          r_unknown = max 0 (mem_used dev - sum_list (map memory_bytes (kp_get kp gpu_idx))),
          r_active = (0 < max 0 (mem_used dev - sum_list (map memory_bytes (kp_get kp gpu_idx)))),
          r_confidence =
            (if 0 < max 0 (mem_used dev - sum_list (map memory_bytes (kp_get kp gpu_idx)))
             then calculate_inference_confidence (snd (find_unknown clk hs ids gcs s)) gpu_idx
                    (max 0 (mem_used dev - sum_list (map memory_bytes (kp_get kp gpu_idx))))
                    (mem_used dev)
             else 0),
          r_allocations = allocs\<rparr>"
proof (cases "sum_list (map memory_bytes (kp_get kp gpu_idx)) < mem_used dev")
  case True
  let ?u = "mem_used dev - sum_list (map memory_bytes (kp_get kp gpu_idx))"
  obtain ucs s1 where f: "find_unknown clk hs ids gcs s = (ucs, s1)"
    by (cases "find_unknown clk hs ids gcs s")
  obtain s2 r where dd: "distribute_unknown_memory clk ?u ucs s1 = (s2, r)"
    by (cases "distribute_unknown_memory clk ?u ucs s1")
  from distribute_total [of clk ?u ucs s1] dd obtain allocs where r: "r = Inr allocs"
    by auto
  show ?thesis
    using True f dd r by (simp add: process_gpu_def Let_def)
next
  case False
  then show ?thesis
    by (simp add: process_gpu_def Let_def case_prod_beta)
qed

lemma process_gpu_dom:
  "dom (container_profiles (fst (process_gpu clk hs kp gcs ids gpu_idx dev s))) =
   (if 0 < max 0 (mem_used dev - sum_list (map memory_bytes (kp_get kp gpu_idx)))
       \<and> filter (\<lambda>c. c_id c \<notin> ids) gcs \<noteq> []
    then dom (container_profiles s) \<union> c_id ` set (filter (\<lambda>c. c_id c \<notin> ids) gcs)
    else dom (container_profiles s))"
proof (cases "sum_list (map memory_bytes (kp_get kp gpu_idx)) < mem_used dev")
  case True
  let ?u = "mem_used dev - sum_list (map memory_bytes (kp_get kp gpu_idx))"
  obtain ucs s1 where f: "find_unknown clk hs ids gcs s = (ucs, s1)"
    by (cases "find_unknown clk hs ids gcs s")
  have ucs: "ucs = filter (\<lambda>c. c_id c \<notin> ids) gcs"
    using find_unknown_fst [of clk hs ids gcs s] f by simp
  have d1: "dom (container_profiles s1) = dom (container_profiles s)"
    using find_unknown_dom [of clk hs ids gcs s] f by simp
  obtain s2 r where dd: "distribute_unknown_memory clk ?u ucs s1 = (s2, r)"
    by (cases "distribute_unknown_memory clk ?u ucs s1")
  have d2: "dom (container_profiles s2) =
      (if ucs = [] then dom (container_profiles s1)
       else dom (container_profiles s1) \<union> c_id ` set ucs)"
    using distribute_dom [of clk ?u ucs s1] dd True by simp
  show ?thesis
    using True f dd d1 d2 ucs by (simp add: process_gpu_def Let_def)
next
  case False
  then show ?thesis
    using find_unknown_dom [of clk hs ids gcs s]
    by (simp add: process_gpu_def Let_def case_prod_beta)
qed

text \<open>
  Claim C1, as amended. The report of every device of the enhanced engine has
  \<open>unknown = max(0, used - known)\<close>, where \<open>known\<close> is the sum of the reserved bytes of
  the device's known processes; the unknown memory is never negative; and
  \<open>known + unknown = max(used, known)\<close>, which is the reported used memory exactly when
  the known memory does not exceed it. The same holds for the basic exporter's
  computation.
\<close>

theorem C1_unknown_memory:
  "(\<exists>r. snd (process_gpu clk hs kp gcs ids gpu_idx dev s) = Inr r \<and>
        r_known r = sum_list (map memory_bytes (kp_get kp gpu_idx)) \<and>
        r_unknown r = max 0 (mem_used dev - r_known r) \<and>
        0 \<le> r_unknown r \<and>
        r_known r + r_unknown r = max (mem_used dev) (r_known r) \<and>
        (r_known r + r_unknown r = mem_used dev) = (r_known r \<le> mem_used dev)) \<and>
   0 \<le> basic_unknown_used total_used known_used \<and>
   known_used + basic_unknown_used total_used known_used = max total_used known_used \<and>
   (known_used + basic_unknown_used total_used known_used = total_used) = (known_used \<le> total_used)"
proof -
  from process_gpu_report [of clk hs kp gcs ids gpu_idx dev s]
  obtain r where r: "snd (process_gpu clk hs kp gcs ids gpu_idx dev s) = Inr r"
    and k: "r_known r = sum_list (map memory_bytes (kp_get kp gpu_idx))"
    and u: "r_unknown r = max 0 (mem_used dev - sum_list (map memory_bytes (kp_get kp gpu_idx)))"
    by fastforce
  from u k have u': "r_unknown r = max 0 (mem_used dev - r_known r)" by simp
  then have "0 \<le> r_unknown r"
    and "r_known r + r_unknown r = max (mem_used dev) (r_known r)"
    and "(r_known r + r_unknown r = mem_used dev) = (r_known r \<le> mem_used dev)"
    by auto
  with r k u' have
    "\<exists>r. snd (process_gpu clk hs kp gcs ids gpu_idx dev s) = Inr r \<and>
        r_known r = sum_list (map memory_bytes (kp_get kp gpu_idx)) \<and>
        r_unknown r = max 0 (mem_used dev - r_known r) \<and>
        0 \<le> r_unknown r \<and>
        r_known r + r_unknown r = max (mem_used dev) (r_known r) \<and>
        (r_known r + r_unknown r = mem_used dev) = (r_known r \<le> mem_used dev)"
    by blast
  moreover have "0 \<le> basic_unknown_used total_used known_used"
    and "known_used + basic_unknown_used total_used known_used = max total_used known_used"
    and "(known_used + basic_unknown_used total_used known_used = total_used)
         = (known_used \<le> total_used)"
    by (auto simp: basic_unknown_used_def)
  ultimately show ?thesis by blast
qed

theorem C1_unknown_memory_witness:
  "\<exists>r. snd (process_gpu (\<lambda>_. 0) 30 [(0, [\<lparr>pid = 1, memory_bytes = 2\<rparr>])] [] {} 0
              \<lparr>uuid = ''GPU-0'', mem_total = 16, mem_used = 10, mem_free = 6\<rparr>
              EnhancedGPUInference_init) = Inr r \<and>
       r_known r = 2 \<and> r_unknown r = 8 \<and> r_known r + r_unknown r = 10"
  using C1_unknown_memory [of "\<lambda>_. 0" 30 "[(0, [\<lparr>pid = 1, memory_bytes = 2\<rparr>])]" "[]" "{}" 0
      "\<lparr>uuid = ''GPU-0'', mem_total = 16, mem_used = 10, mem_free = 6\<rparr>"
      EnhancedGPUInference_init 0 0]
  by auto

text \<open>A device with 5 GiB used and one known process of 7 GiB: the report has known
  memory 7 GiB and unknown memory 0, and their sum is not the used memory.\<close>

theorem C1_counterexample:
  "snd (process_gpu (\<lambda>_. 0) 30 [(0, [\<lparr>pid = 1, memory_bytes = 7 * GiB\<rparr>])] [] {} 0
          \<lparr>uuid = ''GPU-0'', mem_total = 16 * GiB, mem_used = 5 * GiB, mem_free = 11 * GiB\<rparr>
          EnhancedGPUInference_init)
   = Inr \<lparr>r_gpu = 0, r_known = 7 * GiB, r_unknown = 0, r_active = False, r_confidence = 0,
          r_allocations = []\<rparr> \<and>
   r_known \<lparr>r_gpu = 0, r_known = 7 * GiB, r_unknown = 0, r_active = False, r_confidence = 0,
          r_allocations = []\<rparr>
   + r_unknown \<lparr>r_gpu = 0, r_known = 7 * GiB, r_unknown = 0, r_active = False,
          r_confidence = 0, r_allocations = []\<rparr>
   \<noteq> mem_used \<lparr>uuid = ''GPU-0'', mem_total = 16 * GiB, mem_used = 5 * GiB,
          mem_free = 11 * GiB\<rparr> \<and>
   7 * GiB + basic_unknown_used (5 * GiB) (7 * GiB) \<noteq> 5 * GiB"
  by (simp add: process_gpu_def basic_unknown_used_def Let_def GiB_def)

text \<open>
  Claim C4, as amended. The mega and unified exporters set the inference-active flag
  exactly when the unknown memory exceeds 100 MiB (\<open>100 * 1024 * 1024\<close> bytes), and
  clear it at or below that. The enhanced engine and the basic exporter have no such
  threshold: they set the flag exactly when the unknown memory is positive.
\<close>

theorem C4_inference_active_flag:
  "inference_active (mega_process_inference used ps)
     = (memory_unknown (mega_process_inference used ps) > 100 * 1024 * 1024) \<and>
   (\<forall>u f. unified_inference_gauge used ps = Some (u, f) \<longrightarrow> f = (u > 100 * 1024 * 1024)) \<and>
   (\<exists>r. snd (process_gpu clk hs kp gcs ids gpu_idx dev s) = Inr r \<and>
        r_active r = (r_unknown r > 0)) \<and>
   basic_inference_active total_used known_used = (basic_unknown_used total_used known_used > 0)"
proof -
  have "inference_active (mega_process_inference used ps)
          = (memory_unknown (mega_process_inference used ps) > 100 * 1024 * 1024)"
    by (auto simp: mega_process_inference_def Let_def split: option.splits)
  moreover
  have "\<forall>u f. unified_inference_gauge used ps = Some (u, f) \<longrightarrow> f = (u > 100 * 1024 * 1024)"
    by (auto simp: unified_inference_gauge_def Let_def split: option.splits if_splits)
  moreover
  from process_gpu_report [of clk hs kp gcs ids gpu_idx dev s]
  have "\<exists>r. snd (process_gpu clk hs kp gcs ids gpu_idx dev s) = Inr r \<and>
          r_active r = (r_unknown r > 0)"
    by fastforce
  moreover
  have "basic_inference_active total_used known_used
          = (basic_unknown_used total_used known_used > 0)"
    by (simp add: basic_inference_active_def)
  ultimately show ?thesis by blast
qed

theorem C4_inference_active_flag_witness:
  "unified_inference_gauge (200 * 1024 * 1024) (Some [Some (50 * 1024 * 1024)])
     = Some (150 * 1024 * 1024, True) \<and>
   inference_active (mega_process_inference (120 * 1024 * 1024) (Some [Some (50 * 1024 * 1024)]))
     = False"
  using C4_inference_active_flag [of "120 * 1024 * 1024" "Some [Some (50 * 1024 * 1024)]"]
  by (simp add: unified_inference_gauge_def mega_process_inference_def Let_def)

theorem C4_counterexample:
  "snd (process_gpu (\<lambda>_. 0) 30 [] [] {} 0
          \<lparr>uuid = ''GPU-0'', mem_total = 16 * 1024 * 1024 * 1024,
           mem_used = 50 * 1024 * 1024, mem_free = 16334 * 1024 * 1024\<rparr>
          EnhancedGPUInference_init)
   = Inr \<lparr>r_gpu = 0, r_known = 0, r_unknown = 50 * 1024 * 1024, r_active = True,
          r_confidence = 0.5, r_allocations = []\<rparr> \<and>
   \<not> r_unknown \<lparr>r_gpu = 0, r_known = 0, r_unknown = 50 * 1024 * 1024, r_active = True,
          r_confidence = 0.5, r_allocations = []\<rparr> > 100 * 1024 * 1024 \<and>
   basic_inference_active (50 * 1024 * 1024) 0 \<and>
   \<not> basic_unknown_used (50 * 1024 * 1024) 0 > 100 * 1024 * 1024"
  by (simp add: process_gpu_def basic_unknown_used_def basic_inference_active_def Let_def
      calculate_inference_confidence_def distribute_unknown_memory_def
      EnhancedGPUInference_init_def)

section \<open>Properties of the confidence\<close>

lemma variance_nonneg:
  "0 \<le> sum_list (map (\<lambda>x. (x - a) ^ 2) xs) / real (length xs)"
  by (intro divide_nonneg_nonneg sum_list_nonneg) auto

lemma stability_divisor:
  assumes "0 \<le> (v::real)"
  shows "1 \<le> (if 0 < a then 1 + v / a ^ 2 else 1)"
  using assms by simp

text \<open>For a fixed history the confidence is the unknown ratio times one factor in
  \<open>(0, 1]\<close> that does not depend on the memory arguments.\<close>

lemma confidence_factor:
  "\<exists>k. 0 < k \<and> k \<le> 1 \<and>
       (\<forall>u t. t \<noteq> 0 \<longrightarrow> calculate_inference_confidence s i u t = (u / t) * k)"
proof (cases "length (memory_history s i) > 10")
  case False
  then have "\<forall>u t. t \<noteq> 0 \<longrightarrow> calculate_inference_confidence s i u t = (u / t) * 0.5"
    by (simp add: calculate_inference_confidence_def Let_def)
  then show ?thesis by (intro exI [of _ "0.5"]) simp
next
  case True
  let ?h = "memory_history s i"
  let ?avg = "sum_list ?h / real (length ?h)"
  let ?var = "sum_list (map (\<lambda>x. (x - ?avg) ^ 2) ?h) / real (length ?h)"
  let ?k = "1 / (if ?avg > 0 then 1 + ?var / (?avg ^ 2) else 1)"
  have v: "0 \<le> ?var" by (rule variance_nonneg)
  have d: "1 \<le> (if ?avg > 0 then 1 + ?var / (?avg ^ 2) else 1)"
    using v by (rule stability_divisor)
  have k: "0 < ?k \<and> ?k \<le> 1" using d by simp
  have "\<forall>u t. t \<noteq> 0 \<longrightarrow> calculate_inference_confidence s i u t = (u / t) * ?k"
    using True by (simp add: calculate_inference_confidence_def Let_def)
  with k show ?thesis by blast
qed

lemma confidence_spec_stability:
  assumes "t \<noteq> 0" "length (memory_history s i) > 10 \<longrightarrow> 0 < mean (memory_history s i)"
  shows "calculate_inference_confidence s i u t = (u / t) * spec_stability (memory_history s i)"
  using assms
  by (simp add: calculate_inference_confidence_def spec_stability_def mean_def variance_def Let_def)

lemma ratio_times_factor:
  assumes "0 \<le> (u::real)" "u \<le> t" "0 < t" "0 < k" "k \<le> 1"
  shows "0 \<le> (u / t) * k \<and> (u / t) * k \<le> 1"
proof -
  have a: "0 \<le> u / t" and b: "u / t \<le> 1" using assms by simp_all
  have "(u / t) * k \<le> 1 * 1"
    using a b assms(4,5) by (intro mult_mono) simp_all
  moreover have "0 \<le> (u / t) * k"
    using a assms(4) by (intro mult_nonneg_nonneg) simp_all
  ultimately show ?thesis by simp
qed

text \<open>
  Claim C6. In a cycle whose readings are non-negative (the used memory of the device
  and the reserved bytes of its known processes), the confidence reported for the device
  lies in \<open>[0, 1]\<close>, and it is 0 when the used memory is 0. The confidence function
  returns 0 for total memory 0. For one state and device (which fix the stability
  factor) it is monotonically non-decreasing in the unknown ratio. It equals the unknown
  ratio times the stability factor of the specification whenever the mean of a history of
  more than 10 samples is positive.
\<close>

theorem C6_confidence:
  "((0 \<le> mem_used dev \<and> (\<forall>p\<in>set (kp_get kp gpu_idx). 0 \<le> memory_bytes p)) \<longrightarrow>
      (\<exists>r. snd (process_gpu clk hs kp gcs ids gpu_idx dev s) = Inr r \<and>
           0 \<le> r_confidence r \<and> r_confidence r \<le> 1 \<and>
           (mem_used dev = 0 \<longrightarrow> r_confidence r = 0))) \<and>
   calculate_inference_confidence s gpu_idx unknown_memory 0 = 0 \<and>
   (total_memory1 \<noteq> 0 \<and> total_memory2 \<noteq> 0 \<and> unknown1 / total_memory1 \<le> unknown2 / total_memory2 \<longrightarrow>
      calculate_inference_confidence s gpu_idx unknown1 total_memory1
      \<le> calculate_inference_confidence s gpu_idx unknown2 total_memory2) \<and>
   (total_memory \<noteq> 0 \<and>
    (length (memory_history s gpu_idx) > 10 \<longrightarrow> 0 < mean (memory_history s gpu_idx)) \<longrightarrow>
      calculate_inference_confidence s gpu_idx unknown_memory total_memory
      = (unknown_memory / total_memory) * spec_stability (memory_history s gpu_idx))"
proof (intro conjI impI)
  assume nonneg: "0 \<le> mem_used dev \<and> (\<forall>p\<in>set (kp_get kp gpu_idx). 0 \<le> memory_bytes p)"
  let ?K = "sum_list (map memory_bytes (kp_get kp gpu_idx))"
  let ?U = "max 0 (mem_used dev - ?K)"
  let ?s1 = "snd (find_unknown clk hs ids gcs s)"
  have K: "0 \<le> ?K" using nonneg by (intro sum_list_nonneg) auto
  from process_gpu_report [of clk hs kp gcs ids gpu_idx dev s]
  obtain r where r: "snd (process_gpu clk hs kp gcs ids gpu_idx dev s) = Inr r"
    and c: "r_confidence r =
              (if 0 < ?U then calculate_inference_confidence ?s1 gpu_idx ?U (mem_used dev) else 0)"
    by fastforce
  obtain k where k: "0 < k" "k \<le> 1"
    and f: "\<forall>u t. t \<noteq> 0 \<longrightarrow> calculate_inference_confidence ?s1 gpu_idx u t = (u / t) * k"
    using confidence_factor [of ?s1 gpu_idx] by blast
  have bounds: "0 \<le> r_confidence r \<and> r_confidence r \<le> 1"
  proof (cases "0 < ?U")
    case False
    then show ?thesis using c by simp
  next
    case True
    then have pos: "0 < mem_used dev" and le: "?U \<le> mem_used dev" and u0: "0 \<le> ?U"
      using K by auto
    from pos f have "calculate_inference_confidence ?s1 gpu_idx ?U (mem_used dev)
        = (?U / mem_used dev) * k" by simp
    moreover have "0 \<le> (?U / mem_used dev) * k \<and> (?U / mem_used dev) * k \<le> 1"
      using u0 le pos k by (rule ratio_times_factor)
    ultimately show ?thesis using c True by simp
  qed
  have zero: "mem_used dev = 0 \<longrightarrow> r_confidence r = 0"
    using c K by auto
  from r bounds zero
  show "\<exists>r. snd (process_gpu clk hs kp gcs ids gpu_idx dev s) = Inr r \<and>
           0 \<le> r_confidence r \<and> r_confidence r \<le> 1 \<and>
           (mem_used dev = 0 \<longrightarrow> r_confidence r = 0)"
    by blast
next
  show "calculate_inference_confidence s gpu_idx unknown_memory 0 = 0"
    by (simp add: calculate_inference_confidence_def)
next
  assume h: "total_memory1 \<noteq> 0 \<and> total_memory2 \<noteq> 0 \<and> unknown1 / total_memory1 \<le> unknown2 / total_memory2"
  obtain k where k: "0 < k"
    and f: "\<forall>u t. t \<noteq> 0 \<longrightarrow> calculate_inference_confidence s gpu_idx u t = (u / t) * k"
    using confidence_factor [of s gpu_idx] by blast
  from h f have "calculate_inference_confidence s gpu_idx unknown1 total_memory1 = (unknown1 / total_memory1) * k"
    and "calculate_inference_confidence s gpu_idx unknown2 total_memory2 = (unknown2 / total_memory2) * k"
    by simp_all
  moreover have "(unknown1 / total_memory1) * k \<le> (unknown2 / total_memory2) * k"
    using h k by (intro mult_right_mono) simp_all
  ultimately show "calculate_inference_confidence s gpu_idx unknown1 total_memory1
      \<le> calculate_inference_confidence s gpu_idx unknown2 total_memory2"
    by simp
next
  assume h: "total_memory \<noteq> 0 \<and>
    (length (memory_history s gpu_idx) > 10 \<longrightarrow> 0 < mean (memory_history s gpu_idx))"
  then show "calculate_inference_confidence s gpu_idx unknown_memory total_memory
      = (unknown_memory / total_memory) * spec_stability (memory_history s gpu_idx)"
    using confidence_spec_stability [of total_memory s gpu_idx unknown_memory] by blast
qed

theorem C6_confidence_witness:
  "(\<exists>r. snd (process_gpu (\<lambda>_. 0) 30 [(0, [\<lparr>pid = 1, memory_bytes = 2\<rparr>])] [] {} 0
              \<lparr>uuid = ''GPU-0'', mem_total = 16, mem_used = 10, mem_free = 6\<rparr>
              EnhancedGPUInference_init) = Inr r \<and>
        0 \<le> r_confidence r \<and> r_confidence r \<le> 1) \<and>
   calculate_inference_confidence EnhancedGPUInference_init 0 1 10
   \<le> calculate_inference_confidence EnhancedGPUInference_init 0 4 20 \<and>
   calculate_inference_confidence EnhancedGPUInference_init 0 4 20
   = (4 / 20) * spec_stability (memory_history EnhancedGPUInference_init 0)"
proof -
  let ?kp = "[(0::nat, [\<lparr>pid = 1, memory_bytes = 2\<rparr>])]"
  let ?dev = "\<lparr>uuid = ''GPU-0'', mem_total = 16, mem_used = 10, mem_free = 6\<rparr>"
  note t = C6_confidence [of ?dev ?kp 0 "\<lambda>_. 0" 30 "[]" "{}" EnhancedGPUInference_init 4 10 20 1 4 20]
  have h1: "0 \<le> mem_used ?dev \<and> (\<forall>p\<in>set (kp_get ?kp 0). 0 \<le> memory_bytes p)" by simp
  have h2: "(10::real) \<noteq> 0 \<and> (20::real) \<noteq> 0 \<and> (1::real) / 10 \<le> 4 / 20" by simp
  have h3: "(20::real) \<noteq> 0 \<and>
    (length (memory_history EnhancedGPUInference_init 0) > 10 \<longrightarrow>
       0 < mean (memory_history EnhancedGPUInference_init 0))"
    by (simp add: EnhancedGPUInference_init_def)
  from t h1 h2 h3 show ?thesis by blast
qed

section \<open>Properties of the profile observation\<close>

lemma deque_append_short: "length xs < m \<Longrightarrow> deque_append m xs x = xs @ [x]"
  by (simp add: deque_append_def)

lemma deque_append_full: "length xs = m \<Longrightarrow> 0 < m \<Longrightarrow> deque_append m xs x = tl xs @ [x]"
  by (cases xs) (simp_all add: deque_append_def Let_def)

lemma deque_append_length: "length xs \<le> m \<Longrightarrow> length (deque_append m xs x) \<le> m"
  by (simp add: deque_append_def Let_def)

lemma deque_append_set: "set (deque_append m xs x) \<subseteq> insert x (set xs)"
proof -
  have "set (drop (length (xs @ [x]) - m) (xs @ [x])) \<subseteq> set (xs @ [x])"
    by (rule set_drop_subset)
  then show ?thesis by (simp add: deque_append_def Let_def)
qed

lemma update_history:
  "gpu_history (fst (update clk hs p v m n)) =
   deque_append hs (gpu_history p) \<lparr>timestamp = clk n, visible = v, memory = m\<rparr>"
  by (simp add: update_def time_time_def Let_def)

lemma update_last_seen:
  "last_seen_with_gpu (fst (update clk hs p v m n)) =
   (if v then Some (clk (Suc n)) else last_seen_with_gpu p)"
  by (simp add: update_def time_time_def Let_def)

lemma update_typical:
  "typical_memory (fst (update clk hs p v m n)) =
   (let h' = deque_append hs (gpu_history p) \<lparr>timestamp = clk n, visible = v, memory = m\<rparr>;
        vm = map memory (filter (\<lambda>h. visible h \<and> memory h > 0) h')
    in if length h' > 5 \<and> vm \<noteq> [] then sum_list vm / real (length vm) else typical_memory p)"
  by (simp add: update_def time_time_def Let_def)

lemma positive_filter_nonzero:
  assumes "\<forall>h\<in>set xs. 0 \<le> memory h"
  shows "filter (\<lambda>h. visible h \<and> memory h > 0) xs = filter (\<lambda>h. visible h \<and> memory h \<noteq> 0) xs"
  using assms by (intro filter_cong) auto

text \<open>
  Claim C9. \<open>update\<close> with arguments \<open>(has_visible_gpu, memory_bytes)\<close> appends the
  observation to the bounded history: at the end while there is room, and with the oldest
  entry dropped once the history holds \<open>HISTORY_SIZE\<close> entries. \<open>last_seen_with_gpu\<close> is
  set to the current reading exactly when \<open>has_visible_gpu\<close> holds and is otherwise kept.
  The typical memory becomes the arithmetic mean of the memory of the history entries that
  are visible with positive memory when the new history has more than 5 entries and such
  entries exist; otherwise it keeps its prior value, which is 0 for a new profile. For
  non-negative memory values, positive memory is nonzero memory.
\<close>

theorem C9_profile_update:
  "gpu_history (fst (update clk hs p v m n))
     = deque_append hs (gpu_history p) \<lparr>timestamp = clk n, visible = v, memory = m\<rparr> \<and>
   (length (gpu_history p) < hs \<longrightarrow>
      gpu_history (fst (update clk hs p v m n))
        = gpu_history p @ [\<lparr>timestamp = clk n, visible = v, memory = m\<rparr>]) \<and>
   (length (gpu_history p) = hs \<and> 0 < hs \<longrightarrow>
      gpu_history (fst (update clk hs p v m n))
        = tl (gpu_history p) @ [\<lparr>timestamp = clk n, visible = v, memory = m\<rparr>]) \<and>
   (length (gpu_history p) \<le> hs \<longrightarrow> length (gpu_history (fst (update clk hs p v m n))) \<le> hs) \<and>
   last_seen_with_gpu (fst (update clk hs p v m n))
     = (if v then Some (clk (Suc n)) else last_seen_with_gpu p) \<and>
   typical_memory (fst (update clk hs p v m n))
     = (let h' = gpu_history (fst (update clk hs p v m n));
            vm = map memory (filter (\<lambda>h. visible h \<and> memory h > 0) h')
        in if length h' > 5 \<and> vm \<noteq> [] then sum_list vm / real (length vm)
           else typical_memory p) \<and>
   (0 \<le> m \<and> (\<forall>h\<in>set (gpu_history p). 0 \<le> memory h) \<longrightarrow>
      filter (\<lambda>h. visible h \<and> memory h > 0) (gpu_history (fst (update clk hs p v m n)))
        = filter (\<lambda>h. visible h \<and> memory h \<noteq> 0) (gpu_history (fst (update clk hs p v m n)))) \<and>
   typical_memory (ContainerProfile_init cid cname) = 0"
proof -
  let ?obs = "\<lparr>timestamp = clk n, visible = v, memory = m\<rparr>"
  let ?p' = "fst (update clk hs p v m n)"
  have hist: "gpu_history ?p' = deque_append hs (gpu_history p) ?obs"
    by (rule update_history)
  have c2: "length (gpu_history p) < hs \<longrightarrow> gpu_history ?p' = gpu_history p @ [?obs]"
    unfolding hist by (simp add: deque_append_short)
  have c3: "length (gpu_history p) = hs \<and> 0 < hs \<longrightarrow> gpu_history ?p' = tl (gpu_history p) @ [?obs]"
    unfolding hist using deque_append_full [of "gpu_history p" hs ?obs] by blast
  have c4: "length (gpu_history p) \<le> hs \<longrightarrow> length (gpu_history ?p') \<le> hs"
    unfolding hist using deque_append_length [of "gpu_history p" hs ?obs] by blast
  have c5: "last_seen_with_gpu ?p' = (if v then Some (clk (Suc n)) else last_seen_with_gpu p)"
    by (rule update_last_seen)
  have c6: "typical_memory ?p'
     = (let h' = gpu_history ?p';
            vm = map memory (filter (\<lambda>h. visible h \<and> memory h > 0) h')
        in if length h' > 5 \<and> vm \<noteq> [] then sum_list vm / real (length vm)
           else typical_memory p)"
    unfolding hist by (rule update_typical)
  have c7: "0 \<le> m \<and> (\<forall>h\<in>set (gpu_history p). 0 \<le> memory h) \<longrightarrow>
      filter (\<lambda>h. visible h \<and> memory h > 0) (gpu_history ?p')
        = filter (\<lambda>h. visible h \<and> memory h \<noteq> 0) (gpu_history ?p')"
  proof
    assume a: "0 \<le> m \<and> (\<forall>h\<in>set (gpu_history p). 0 \<le> memory h)"
    have "\<forall>h\<in>set (gpu_history ?p'). 0 \<le> memory h"
      unfolding hist using a deque_append_set [of hs "gpu_history p" ?obs] by auto
    then show "filter (\<lambda>h. visible h \<and> memory h > 0) (gpu_history ?p')
        = filter (\<lambda>h. visible h \<and> memory h \<noteq> 0) (gpu_history ?p')"
      by (rule positive_filter_nonzero)
  qed
  have c8: "typical_memory (ContainerProfile_init cid cname) = 0"
    by (simp add: ContainerProfile_init_def)
  from hist c2 c3 c4 c5 c6 c7 c8 show ?thesis by blast
qed

theorem C9_profile_update_witness:
  "typical_memory (fst (update (\<lambda>_. 7) 30
      ((ContainerProfile_init ''c1'' ''ollama'')
         \<lparr>gpu_history := replicate 5 \<lparr>timestamp = 1, visible = True, memory = 4\<rparr>\<rparr>)
      True 10 0)) = 5 \<and>
   last_seen_with_gpu (fst (update (\<lambda>_. 7) 30
      ((ContainerProfile_init ''c1'' ''ollama'')
         \<lparr>gpu_history := replicate 5 \<lparr>timestamp = 1, visible = True, memory = 4\<rparr>\<rparr>)
      True 10 0)) = Some 7 \<and>
   length (gpu_history (fst (update (\<lambda>_. 7) 30
      ((ContainerProfile_init ''c1'' ''ollama'')
         \<lparr>gpu_history := replicate 5 \<lparr>timestamp = 1, visible = True, memory = 4\<rparr>\<rparr>)
      True 10 0))) = 6"
proof -
  let ?p = "(ContainerProfile_init ''c1'' ''ollama'')
         \<lparr>gpu_history := replicate 5 \<lparr>timestamp = 1, visible = True, memory = 4\<rparr>\<rparr>"
  note t = C9_profile_update [of "\<lambda>_. 7" 30 ?p True 10 0 "''c1''" "''ollama''"]
  have len: "length (gpu_history ?p) < 30" by simp
  from t len have h: "gpu_history (fst (update (\<lambda>_. 7) 30 ?p True 10 0))
      = gpu_history ?p @ [\<lparr>timestamp = 7, visible = True, memory = 10\<rparr>]"
    by blast
  from t have l: "last_seen_with_gpu (fst (update (\<lambda>_. 7) 30 ?p True 10 0)) = Some 7"
    by simp
  from t have "typical_memory (fst (update (\<lambda>_. 7) 30 ?p True 10 0))
     = (let h' = gpu_history (fst (update (\<lambda>_. 7) 30 ?p True 10 0));
            vm = map memory (filter (\<lambda>h. visible h \<and> memory h > 0) h')
        in if length h' > 5 \<and> vm \<noteq> [] then sum_list vm / real (length vm)
           else typical_memory ?p)"
    by blast
  then have ty: "typical_memory (fst (update (\<lambda>_. 7) 30 ?p True 10 0)) = 5"
    unfolding h by (simp add: numeral_eq_Suc)
  from h l ty show ?thesis by simp
qed

section \<open>Properties of the process query\<close>

lemma gpu_index_loop_no_match:
  "\<forall>d\<in>set devices. \<not> str_in u (uuid d) \<Longrightarrow> gpu_index_loop u i devices = 0"
  by (induction devices arbitrary: i) simp_all

lemma gpu_index_loop_bound:
  "gpu_index_loop u i devices = 0 \<or>
   (i \<le> gpu_index_loop u i devices \<and> gpu_index_loop u i devices < i + length devices)"
proof (induction devices arbitrary: i)
  case Nil
  then show ?case by simp
next
  case (Cons d devices)
  from Cons.IH [of "Suc i"] show ?case by auto
qed

lemma kp_get_append:
  "kp_get (kp_append k v kp) j = (if j = k then kp_get kp j @ [v] else kp_get kp j)"
  by (induction kp) auto

text \<open>The processes stored under a key are exactly the rows whose UUID lookup returns
  that key, in the order of the rows.\<close>

lemma known_processes_loop_get:
  "kp_get (known_processes_loop devices rows kp) k =
   kp_get kp k @
   map (\<lambda>row. \<lparr>pid = row_pid row, memory_bytes = row_memory_mb row * 1024 * 1024\<rparr>)
     (filter (\<lambda>row. get_gpu_index_from_uuid devices (row_gpu_uuid row) = k) rows)"
  by (induction rows arbitrary: kp) (auto simp: Let_def kp_get_append)

text \<open>
  Claim C10. The UUID lookup is a total function; for a UUID that is contained in the
  UUID of no enumerated device it returns index 0. Every row of the process query is
  therefore stored under some key, the rows stored under key 0 are those whose lookup
  returns 0 (the unmatched ones among them), and the known memory of device 0 is the sum
  of their reserved bytes: an unmatched row's memory is counted there.
\<close>

theorem C10_unmatched_uuid_is_device_0:
  "((\<forall>d\<in>set devices. \<not> str_in u (uuid d)) \<longrightarrow> get_gpu_index_from_uuid devices u = 0) \<and>
   (get_gpu_index_from_uuid devices u = 0 \<or> get_gpu_index_from_uuid devices u < length devices) \<and>
   kp_get (get_known_gpu_processes devices rows) 0
     = map (\<lambda>row. \<lparr>pid = row_pid row, memory_bytes = row_memory_mb row * 1024 * 1024\<rparr>)
         (filter (\<lambda>row. get_gpu_index_from_uuid devices (row_gpu_uuid row) = 0) rows) \<and>
   (row \<in> set rows \<and> (\<forall>d\<in>set devices. \<not> str_in (row_gpu_uuid row) (uuid d)) \<longrightarrow>
      \<lparr>pid = row_pid row, memory_bytes = row_memory_mb row * 1024 * 1024\<rparr>
        \<in> set (kp_get (get_known_gpu_processes devices rows) 0)) \<and>
   (\<exists>r. snd (process_gpu clk hs (get_known_gpu_processes devices rows) gcs ids 0 dev s) = Inr r \<and>
        r_known r =
          sum_list (map (\<lambda>row. row_memory_mb row * 1024 * 1024)
            (filter (\<lambda>row. get_gpu_index_from_uuid devices (row_gpu_uuid row) = 0) rows)))"
proof -
  have c1: "(\<forall>d\<in>set devices. \<not> str_in u (uuid d)) \<longrightarrow> get_gpu_index_from_uuid devices u = 0"
    by (simp add: get_gpu_index_from_uuid_def gpu_index_loop_no_match)
  have c2: "get_gpu_index_from_uuid devices u = 0 \<or>
            get_gpu_index_from_uuid devices u < length devices"
    using gpu_index_loop_bound [of u 0 devices] by (auto simp: get_gpu_index_from_uuid_def)
  have c3: "kp_get (get_known_gpu_processes devices rows) 0
     = map (\<lambda>row. \<lparr>pid = row_pid row, memory_bytes = row_memory_mb row * 1024 * 1024\<rparr>)
         (filter (\<lambda>row. get_gpu_index_from_uuid devices (row_gpu_uuid row) = 0) rows)"
    by (simp add: get_known_gpu_processes_def known_processes_loop_get)
  have c4: "row \<in> set rows \<and> (\<forall>d\<in>set devices. \<not> str_in (row_gpu_uuid row) (uuid d)) \<longrightarrow>
      \<lparr>pid = row_pid row, memory_bytes = row_memory_mb row * 1024 * 1024\<rparr>
        \<in> set (kp_get (get_known_gpu_processes devices rows) 0)"
  proof
    assume a: "row \<in> set rows \<and> (\<forall>d\<in>set devices. \<not> str_in (row_gpu_uuid row) (uuid d))"
    then have "get_gpu_index_from_uuid devices (row_gpu_uuid row) = 0"
      by (simp add: get_gpu_index_from_uuid_def gpu_index_loop_no_match)
    with a have "row \<in> set (filter (\<lambda>row. get_gpu_index_from_uuid devices (row_gpu_uuid row) = 0) rows)"
      by simp
    then show "\<lparr>pid = row_pid row, memory_bytes = row_memory_mb row * 1024 * 1024\<rparr>
        \<in> set (kp_get (get_known_gpu_processes devices rows) 0)"
      unfolding c3 set_map by (rule imageI)
  qed
  from process_gpu_report [of clk hs "get_known_gpu_processes devices rows" gcs ids 0 dev s]
  obtain r where r: "snd (process_gpu clk hs (get_known_gpu_processes devices rows) gcs ids 0 dev s) = Inr r"
    and k: "r_known r = sum_list (map memory_bytes (kp_get (get_known_gpu_processes devices rows) 0))"
    by fastforce
  have "r_known r = sum_list (map (\<lambda>row. row_memory_mb row * 1024 * 1024)
            (filter (\<lambda>row. get_gpu_index_from_uuid devices (row_gpu_uuid row) = 0) rows))"
    unfolding k c3 by (simp add: comp_def)
  with r have c5: "\<exists>r. snd (process_gpu clk hs (get_known_gpu_processes devices rows) gcs ids 0 dev s) = Inr r \<and>
        r_known r =
          sum_list (map (\<lambda>row. row_memory_mb row * 1024 * 1024)
            (filter (\<lambda>row. get_gpu_index_from_uuid devices (row_gpu_uuid row) = 0) rows))"
    by blast
  from c1 c2 c3 c4 c5 show ?thesis by blast
qed

theorem C10_unmatched_uuid_is_device_0_witness:
  "get_gpu_index_from_uuid
     [\<lparr>uuid = ''GPU-aa'', mem_total = 16, mem_used = 10, mem_free = 6\<rparr>,
      \<lparr>uuid = ''GPU-bb'', mem_total = 16, mem_used = 10, mem_free = 6\<rparr>] ''GPU-zz'' = 0 \<and>
   \<lparr>pid = 42, memory_bytes = 3 * 1024 * 1024\<rparr>
     \<in> set (kp_get (get_known_gpu_processes
          [\<lparr>uuid = ''GPU-aa'', mem_total = 16, mem_used = 10, mem_free = 6\<rparr>,
           \<lparr>uuid = ''GPU-bb'', mem_total = 16, mem_used = 10, mem_free = 6\<rparr>]
          [\<lparr>row_pid = 7, row_gpu_uuid = ''GPU-bb'', row_memory_mb = 5\<rparr>,
           \<lparr>row_pid = 42, row_gpu_uuid = ''GPU-zz'', row_memory_mb = 3\<rparr>]) 0)"
proof -
  let ?devs = "[\<lparr>uuid = ''GPU-aa'', mem_total = 16, mem_used = 10, mem_free = 6\<rparr>,
      \<lparr>uuid = ''GPU-bb'', mem_total = 16, mem_used = 10, mem_free = 6\<rparr>]"
  let ?row = "\<lparr>row_pid = 42, row_gpu_uuid = ''GPU-zz'', row_memory_mb = 3\<rparr>"
  let ?rows = "[\<lparr>row_pid = 7, row_gpu_uuid = ''GPU-bb'', row_memory_mb = 5\<rparr>, ?row]"
  have no: "\<forall>d\<in>set ?devs. \<not> str_in ''GPU-zz'' (uuid d)"
    by (simp add: str_in_def sublist_code)
  have mem: "?row \<in> set ?rows" by simp
  note t = C10_unmatched_uuid_is_device_0 [of ?devs "''GPU-zz''" ?rows ?row]
  from t no have "get_gpu_index_from_uuid ?devs ''GPU-zz'' = 0" by blast
  moreover from t no mem
  have "\<lparr>pid = row_pid ?row, memory_bytes = row_memory_mb ?row * 1024 * 1024\<rparr>
        \<in> set (kp_get (get_known_gpu_processes ?devs ?rows) 0)"
    by simp
  ultimately show ?thesis by simp
qed

section \<open>The scenario\<close>

lemma deque_append_first: "length (deque_append m [] x) \<le> 1"
  by (simp add: deque_append_def)

lemma scenario_weight_B:
  "container_profiles s (c_id scenario_B) = None \<Longrightarrow>
   fst (get_container_weight clk scenario_B s) = 3"
  by (simp add: get_container_weight_def scenario_B_def ContainerProfile_init_def
      get_gpu_likelihood_score_def detect_ollama Let_def)

lemma scenario_weight_C:
  "container_profiles s (c_id scenario_C) = None \<Longrightarrow>
   fst (get_container_weight clk scenario_C s) = 1"
  by (simp add: get_container_weight_def scenario_C_def ContainerProfile_init_def
      get_gpu_likelihood_score_def detect_web Let_def)

lemma scenario_known:
  "get_known_gpu_processes scenario_devices scenario_rows
   = [(0, [\<lparr>pid = 100, memory_bytes = 2 * GiB\<rparr>])]"
  by (simp add: get_known_gpu_processes_def scenario_devices_def scenario_rows_def
      get_gpu_index_from_uuid_def str_in_def GiB_def Let_def)

lemma scenario_distribute:
  assumes "container_profiles s = Map.empty"
  shows "snd (distribute_unknown_memory clk (8 * GiB) [scenario_B, scenario_C] s)
   = Inr [\<lparr>a_container = scenario_B, a_weight = 3, a_proportion = 3 / 4, a_memory = 6 * GiB\<rparr>,
          \<lparr>a_container = scenario_C, a_weight = 1, a_proportion = 1 / 4, a_memory = 2 * GiB\<rparr>]"
proof -
  define s1 where "s1 = snd (get_container_weight clk scenario_B s)"
  define s2 where "s2 = snd (get_container_weight clk scenario_C s1)"
  have b: "container_profiles s (c_id scenario_B) = None" using assms by simp
  have g1: "get_container_weight clk scenario_B s = (3, s1)"
    using scenario_weight_B [OF b, of clk] by (simp add: s1_def prod_eq_iff)
  have ne: "c_id scenario_B \<noteq> c_id scenario_C"
    by (simp add: scenario_B_def scenario_C_def)
  have d1: "dom (container_profiles s1) = {c_id scenario_B}"
    using get_container_weight_dom [of clk scenario_B s] assms by (simp add: s1_def)
  have "c_id scenario_C \<notin> dom (container_profiles s1)"
    unfolding d1 using ne by simp
  then have c: "container_profiles s1 (c_id scenario_C) = None"
    by (simp add: domIff)
  have g2: "get_container_weight clk scenario_C s1 = (1, s2)"
    using scenario_weight_C [OF c, of clk] by (simp add: s2_def prod_eq_iff)
  have wl: "weights_loop clk [scenario_B, scenario_C] Map.empty 0 s
      = ([c_id scenario_B \<mapsto> 3, c_id scenario_C \<mapsto> 1], 4, s2)"
    by (simp add: g1 g2)
  have al: "allocate_loop [c_id scenario_B \<mapsto> 3, c_id scenario_C \<mapsto> 1] 4 (8 * GiB)
        [scenario_B, scenario_C]
      = Inr [\<lparr>a_container = scenario_B, a_weight = 3, a_proportion = 3 / 4, a_memory = 6 * GiB\<rparr>,
          \<lparr>a_container = scenario_C, a_weight = 1, a_proportion = 1 / 4, a_memory = 2 * GiB\<rparr>]"
    using ne by simp
  have g: "\<not> 8 * GiB \<le> 0" by (simp add: GiB_def)
  have "distribute_unknown_memory clk (8 * GiB) [scenario_B, scenario_C] s
      = (s2, allocate_loop [c_id scenario_B \<mapsto> 3, c_id scenario_C \<mapsto> 1] 4 (8 * GiB)
               [scenario_B, scenario_C])"
    unfolding distribute_unknown_memory_def wl using g by (simp del: allocate_loop.simps)
  then show ?thesis
    by (simp only: al snd_conv)
qed

lemma track_history_profiles:
  "container_profiles (track_history hs i devices s) = container_profiles s"
  by (induction devices arbitrary: i s) simp_all

lemma observe_existing_absent:
  "container_profiles s cid = None \<Longrightarrow> observe_existing clk hs cid v m s = s"
  by (simp add: observe_existing_def)

lemma GiB_pos: "0 < GiB"
  by (simp add: GiB_def)

text \<open>The cycle of the scenario, for every clock and every history size.\<close>

lemma scenario_cycle:
  "snd (calculate_inference clk hs scenario_devices scenario_rows scenario_map_pid
          [scenario_A, scenario_B, scenario_C] EnhancedGPUInference_init)
   = Inr [\<lparr>r_gpu = 0, r_known = 2 * GiB, r_unknown = 8 * GiB, r_active = True,
           r_confidence = 2 / 5,
           r_allocations =
             [\<lparr>a_container = scenario_B, a_weight = 3, a_proportion = 3 / 4,
               a_memory = 6 * GiB\<rparr>,
              \<lparr>a_container = scenario_C, a_weight = 1, a_proportion = 1 / 4,
               a_memory = 2 * GiB\<rparr>]\<rparr>]"
proof -
  define dev where "dev = \<lparr>uuid = ''GPU-0'', mem_total = 16 * GiB, mem_used = 10 * GiB,
    mem_free = 6 * GiB\<rparr>"
  define s1 where "s1 = get_total_gpu_memory hs scenario_devices EnhancedGPUInference_init"
  define kp where "kp = [(0::nat, [\<lparr>pid = 100, memory_bytes = 2 * GiB\<rparr>])]"
  have devs: "scenario_devices = [dev]" by (simp add: scenario_devices_def dev_def)
  have used: "mem_used dev = 10 * GiB" by (simp add: dev_def)
  have empty: "container_profiles s1 = Map.empty"
    by (simp add: s1_def get_total_gpu_memory_def track_history_profiles
        EnhancedGPUInference_init_def)
  have hist: "memory_history s1 0 = deque_append hs [] (10 * GiB)"
    by (simp add: s1_def get_total_gpu_memory_def devs used EnhancedGPUInference_init_def)
  have short: "\<not> 10 < length (memory_history s1 0)"
    unfolding hist using deque_append_first [of hs "10 * GiB"] by simp
  have ids: "c_id scenario_A \<noteq> c_id scenario_B" "c_id scenario_A \<noteq> c_id scenario_C"
    by (simp_all add: scenario_A_def scenario_B_def scenario_C_def)
  have known: "known_gpus_loop clk hs scenario_map_pid kp {} s1
      = ([(0, 2 * GiB)], {c_id scenario_A}, s1)"
    by (simp add: kp_def scenario_map_pid_def observe_existing_absent empty)
  have unknown: "find_unknown clk hs {c_id scenario_A} [scenario_A, scenario_B, scenario_C] s1
      = ([scenario_B, scenario_C], s1)"
    using ids by (simp add: observe_existing_absent empty)
  have conf: "calculate_inference_confidence s1 0 (8 * GiB) (10 * GiB) = 2 / 5"
    using short GiB_pos by (simp add: calculate_inference_confidence_def Let_def)
  obtain s2 where dist: "distribute_unknown_memory clk (8 * GiB) [scenario_B, scenario_C] s1
      = (s2, Inr [\<lparr>a_container = scenario_B, a_weight = 3, a_proportion = 3 / 4,
               a_memory = 6 * GiB\<rparr>,
              \<lparr>a_container = scenario_C, a_weight = 1, a_proportion = 1 / 4,
               a_memory = 2 * GiB\<rparr>])"
    using scenario_distribute [OF empty, of clk]
    by (cases "distribute_unknown_memory clk (8 * GiB) [scenario_B, scenario_C] s1") simp
  have gpu: "process_gpu clk hs kp [scenario_A, scenario_B, scenario_C] {c_id scenario_A} 0 dev s1
      = (s2, Inr \<lparr>r_gpu = 0, r_known = 2 * GiB, r_unknown = 8 * GiB, r_active = True,
           r_confidence = 2 / 5,
           r_allocations =
             [\<lparr>a_container = scenario_B, a_weight = 3, a_proportion = 3 / 4,
               a_memory = 6 * GiB\<rparr>,
              \<lparr>a_container = scenario_C, a_weight = 1, a_proportion = 1 / 4,
               a_memory = 2 * GiB\<rparr>]\<rparr>)"
    unfolding process_gpu_def unknown
    using GiB_pos by (simp add: kp_def used conf dist Let_def)
  show ?thesis
    unfolding calculate_inference_def s1_def [symmetric] scenario_known kp_def [symmetric]
    by (simp add: known devs gpu Let_def)
qed

text \<open>
  Claim C3. In the scenario the cycle reports, for the one device, known memory 2 GiB and
  unknown memory 8 GiB, weight 3 for B and 1 for C, 6 GiB allocated to B and 2 GiB to C,
  and the inference-active flag set; this holds for every clock and every history size.
  The mega exporter, on the same used memory and process, also sets its flag, the
  8 GiB being above its 100 MiB threshold.
\<close>

theorem C3_scenario:
  "snd (calculate_inference clk hs scenario_devices scenario_rows scenario_map_pid
          [scenario_A, scenario_B, scenario_C] EnhancedGPUInference_init)
   = Inr [\<lparr>r_gpu = 0, r_known = 2 * GiB, r_unknown = 8 * GiB, r_active = True,
           r_confidence = 2 / 5,
           r_allocations =
             [\<lparr>a_container = scenario_B, a_weight = 3, a_proportion = 3 / 4,
               a_memory = 6 * GiB\<rparr>,
              \<lparr>a_container = scenario_C, a_weight = 1, a_proportion = 1 / 4,
               a_memory = 2 * GiB\<rparr>]\<rparr>] \<and>
   mega_process_inference (10 * 1024 * 1024 * 1024) (Some [Some (2 * 1024 * 1024 * 1024)])
   = \<lparr>memory_known = 2 * 1024 * 1024 * 1024, memory_unknown = 8 * 1024 * 1024 * 1024,
      inference_active = True\<rparr>"
proof -
  have mega: "mega_process_inference (10 * 1024 * 1024 * 1024) (Some [Some (2 * 1024 * 1024 * 1024)])
   = \<lparr>memory_known = 2 * 1024 * 1024 * 1024, memory_unknown = 8 * 1024 * 1024 * 1024,
      inference_active = True\<rparr>"
    by (simp add: mega_process_inference_def Let_def)
  from scenario_cycle [of clk hs] mega show ?thesis by (rule conjI)
qed

theorem C3_scenario_witness:
  "snd (calculate_inference (\<lambda>_. 0) 30 scenario_devices scenario_rows scenario_map_pid
          [scenario_A, scenario_B, scenario_C] EnhancedGPUInference_init)
   = Inr [\<lparr>r_gpu = 0, r_known = 2 * GiB, r_unknown = 8 * GiB, r_active = True,
           r_confidence = 2 / 5,
           r_allocations =
             [\<lparr>a_container = scenario_B, a_weight = 3, a_proportion = 3 / 4,
               a_memory = 6 * GiB\<rparr>,
              \<lparr>a_container = scenario_C, a_weight = 1, a_proportion = 1 / 4,
               a_memory = 2 * GiB\<rparr>]\<rparr>] \<and>
   mega_process_inference (10 * 1024 * 1024 * 1024) (Some [Some (2 * 1024 * 1024 * 1024)])
   = \<lparr>memory_known = 2 * 1024 * 1024 * 1024, memory_unknown = 8 * 1024 * 1024 * 1024,
      inference_active = True\<rparr>"
  by (rule C3_scenario)

section \<open>Properties of a whole cycle\<close>

lemma set_map_filter_conv: "set (List.map_filter f xs) = {y. \<exists>x\<in>set xs. f x = Some y}"
  by (induction xs) (auto split: option.splits)

lemma all_processes_simps:
  "all_processes [] = []"
  "all_processes ((k, vs) # kp) = vs @ all_processes kp"
  by (simp_all add: all_processes_def)

lemma known_loop_sound:
  "dom (container_profiles (snd (snd (known_loop clk hs mp procs km ids s))))
     = dom (container_profiles s) \<and>
   fst (snd (known_loop clk hs mp procs km ids s))
     = ids \<union> {c_id c |c p. p \<in> set procs \<and> mp (pid p) = Some c}"
proof (induction procs arbitrary: km ids s)
  case Nil
  then show ?case by simp
next
  case (Cons proc procs)
  show ?case
  proof (cases "mp (pid proc)")
    case None
    with Cons.IH [of "km + memory_bytes proc" ids s] show ?thesis
      by (auto simp: Let_def)
  next
    case (Some c)
    with Cons.IH [of "km + memory_bytes proc" "insert (c_id c) ids"
        "observe_existing clk hs (c_id c) True (memory_bytes proc) s"]
    show ?thesis
      by (auto simp: Let_def observe_existing_dom)
  qed
qed

lemma known_gpus_loop_sound:
  "dom (container_profiles (snd (snd (known_gpus_loop clk hs mp kp ids s))))
     = dom (container_profiles s) \<and>
   fst (snd (known_gpus_loop clk hs mp kp ids s))
     = ids \<union> {c_id c |c p. p \<in> set (all_processes kp) \<and> mp (pid p) = Some c}"
proof (induction kp arbitrary: ids s)
  case Nil
  then show ?case by (simp add: all_processes_simps)
next
  case (Cons entry kp)
  obtain gpu_idx processes where e: "entry = (gpu_idx, processes)" by (cases entry)
  obtain km ids' s' where k: "known_loop clk hs mp processes 0 ids s = (km, ids', s')"
    by (cases "known_loop clk hs mp processes 0 ids s") auto
  from known_loop_sound [of clk hs mp processes 0 ids s] k
  have d: "dom (container_profiles s') = dom (container_profiles s)"
    and i: "ids' = ids \<union> {c_id c |c p. p \<in> set processes \<and> mp (pid p) = Some c}"
    by simp_all
  from Cons.IH [of ids' s']
  have d2: "dom (container_profiles (snd (snd (known_gpus_loop clk hs mp kp ids' s'))))
              = dom (container_profiles s')"
    and i2: "fst (snd (known_gpus_loop clk hs mp kp ids' s'))
              = ids' \<union> {c_id c |c p. p \<in> set (all_processes kp) \<and> mp (pid p) = Some c}"
    by simp_all
  have r: "snd (known_gpus_loop clk hs mp (entry # kp) ids s)
             = snd (known_gpus_loop clk hs mp kp ids' s')"
    by (simp add: e k case_prod_beta)
  have "dom (container_profiles (snd (snd (known_gpus_loop clk hs mp (entry # kp) ids s))))
          = dom (container_profiles s)"
    by (simp only: r d2 d)
  moreover
  have "ids' \<union> {c_id c |c p. p \<in> set (all_processes kp) \<and> mp (pid p) = Some c}
        = ids \<union> {c_id c |c p. p \<in> set (all_processes (entry # kp)) \<and> mp (pid p) = Some c}"
    unfolding i e by (auto simp: all_processes_simps)
  then have "fst (snd (known_gpus_loop clk hs mp (entry # kp) ids s))
          = ids \<union> {c_id c |c p. p \<in> set (all_processes (entry # kp)) \<and> mp (pid p) = Some c}"
    by (simp only: r i2)
  ultimately show ?case by (rule conjI)
qed

lemma kp_append_set:
  "set (all_processes (kp_append k v kp)) = insert v (set (all_processes kp))"
  by (induction kp) (auto simp: all_processes_simps split: if_splits)

lemma known_processes_loop_set:
  "set (all_processes (known_processes_loop devices rows kp))
   = set (all_processes kp)
     \<union> (\<lambda>row. \<lparr>pid = row_pid row, memory_bytes = row_memory_mb row * 1024 * 1024\<rparr>) ` set rows"
  by (induction rows arbitrary: kp) (auto simp: Let_def kp_append_set)

lemma known_ids_resolved:
  "fst (snd (known_gpus_loop clk hs mp (get_known_gpu_processes devices rows) {} s))
   = resolved_ids mp rows"
proof -
  have procs: "set (all_processes (get_known_gpu_processes devices rows))
      = (\<lambda>row. \<lparr>pid = row_pid row, memory_bytes = row_memory_mb row * 1024 * 1024\<rparr>) ` set rows"
    by (simp add: get_known_gpu_processes_def known_processes_loop_set all_processes_simps)
  have "{c_id c |c p. p \<in> set (all_processes (get_known_gpu_processes devices rows))
                      \<and> mp (pid p) = Some c}
        = {c_id c |c row. row \<in> set rows \<and> mp (row_pid row) = Some c}"
    unfolding procs by auto
  also have "\<dots> = resolved_ids mp rows"
    by (auto simp: resolved_ids_def set_map_filter_conv)
  finally show ?thesis
    using known_gpus_loop_sound [of clk hs mp "get_known_gpu_processes devices rows" "{}" s]
    by simp
qed

lemma track_history_dom:
  "dom (container_profiles (get_total_gpu_memory hs devices s)) = dom (container_profiles s)"
  by (simp add: get_total_gpu_memory_def track_history_profiles)

text \<open>The second loop never raises and reports every device; profiles are added, for
  all unresolved containers at once, exactly when some device has unknown memory.\<close>

lemma gpus_loop_sound:
  "\<exists>reports. snd (gpus_loop clk hs kp gcs ids i devices s) = Inr reports \<and>
     length reports = length devices \<and>
     dom (container_profiles (fst (gpus_loop clk hs kp gcs ids i devices s)))
       = dom (container_profiles s) \<union>
         (if \<exists>r\<in>set reports. 0 < r_unknown r
          then c_id ` set (filter (\<lambda>c. c_id c \<notin> ids) gcs) else {})"
proof (induction devices arbitrary: i s)
  case Nil
  then show ?case by simp
next
  case (Cons dev devices)
  let ?F = "c_id ` set (filter (\<lambda>c. c_id c \<notin> ids) gcs)"
  let ?U = "max 0 (mem_used dev - sum_list (map memory_bytes (kp_get kp i)))"
  obtain s' res where p: "process_gpu clk hs kp gcs ids i dev s = (s', res)"
    by (cases "process_gpu clk hs kp gcs ids i dev s")
  from process_gpu_report [of clk hs kp gcs ids i dev s] p
  obtain r where res: "res = Inr r" and ru: "r_unknown r = ?U"
    by fastforce
  have d1: "dom (container_profiles s') = dom (container_profiles s) \<union> (if 0 < ?U then ?F else {})"
    using process_gpu_dom [of clk hs kp gcs ids i dev s] p by auto
  from Cons.IH [of "Suc i" s']
  obtain reports where rest: "snd (gpus_loop clk hs kp gcs ids (Suc i) devices s') = Inr reports"
    and len: "length reports = length devices"
    and d2: "dom (container_profiles (fst (gpus_loop clk hs kp gcs ids (Suc i) devices s')))
       = dom (container_profiles s') \<union>
         (if \<exists>r\<in>set reports. 0 < r_unknown r then ?F else {})"
    by blast
  have whole: "gpus_loop clk hs kp gcs ids i (dev # devices) s
      = (fst (gpus_loop clk hs kp gcs ids (Suc i) devices s'), Inr (r # reports))"
    using p res rest by (simp add: case_prod_beta split: sum.splits)
  have "dom (container_profiles (fst (gpus_loop clk hs kp gcs ids i (dev # devices) s)))
       = dom (container_profiles s) \<union>
         (if \<exists>x\<in>set (r # reports). 0 < r_unknown x then ?F else {})"
    unfolding whole fst_conv d2 d1 using ru by auto
  with whole len show ?case by simp
qed
text \<open>A cycle always completes with one report per device. The profile store after it
  holds the profiles it held before and, exactly when some device reports unknown
  memory, a profile for every unresolved container with GPU access.\<close>

lemma cycle_profiles:
  "\<exists>reports. snd (calculate_inference clk hs devices rows mp gcs s) = Inr reports \<and>
     length reports = length devices \<and>
     dom (container_profiles (fst (calculate_inference clk hs devices rows mp gcs s)))
       = dom (container_profiles s) \<union>
         (if \<exists>r\<in>set reports. 0 < r_unknown r
          then c_id ` {c \<in> set gcs. c_id c \<notin> resolved_ids mp rows} else {})"
proof -
  let ?s1 = "get_total_gpu_memory hs devices s"
  let ?kp = "get_known_gpu_processes devices rows"
  let ?k = "known_gpus_loop clk hs mp ?kp {} ?s1"
  have ids: "fst (snd ?k) = resolved_ids mp rows"
    by (rule known_ids_resolved)
  have d: "dom (container_profiles (snd (snd ?k))) = dom (container_profiles s)"
    using known_gpus_loop_sound [of clk hs mp ?kp "{}" ?s1] by (simp add: track_history_dom)
  have c: "calculate_inference clk hs devices rows mp gcs s
      = gpus_loop clk hs ?kp gcs (resolved_ids mp rows) 0 devices (snd (snd ?k))"
    unfolding ids [symmetric] by (simp add: calculate_inference_def Let_def case_prod_beta)
  have f: "set (filter (\<lambda>c. c_id c \<notin> resolved_ids mp rows) gcs)
      = {c \<in> set gcs. c_id c \<notin> resolved_ids mp rows}"
    by simp
  from gpus_loop_sound [of clk hs ?kp gcs "resolved_ids mp rows" 0 devices "snd (snd ?k)"]
  show ?thesis
    unfolding c d f .
qed

text \<open>
  Claim C8, as amended. Every cycle completes and leaves every earlier profile in the
  store. If some device reports unknown memory in the cycle, every unresolved container
  with GPU access has a profile afterwards (it is created when its weight is first
  computed). The cycle creates no other profile: none for a container resolved through a
  known process, and none at all when no device reports unknown memory.
\<close>

theorem C8_profiles_after_cycle:
  "\<exists>reports. snd (calculate_inference clk hs devices rows mp gcs s) = Inr reports \<and>
     length reports = length devices \<and>
     dom (container_profiles s)
       \<subseteq> dom (container_profiles (fst (calculate_inference clk hs devices rows mp gcs s))) \<and>
     ((\<exists>r\<in>set reports. 0 < r_unknown r) \<longrightarrow>
        (\<forall>c\<in>set gcs. c_id c \<notin> resolved_ids mp rows \<longrightarrow>
           c_id c \<in> dom (container_profiles
                           (fst (calculate_inference clk hs devices rows mp gcs s))))) \<and>
     dom (container_profiles (fst (calculate_inference clk hs devices rows mp gcs s)))
       = dom (container_profiles s) \<union>
         (if \<exists>r\<in>set reports. 0 < r_unknown r
          then c_id ` {c \<in> set gcs. c_id c \<notin> resolved_ids mp rows} else {})"
proof -
  from cycle_profiles [of clk hs devices rows mp gcs s]
  obtain reports where r: "snd (calculate_inference clk hs devices rows mp gcs s) = Inr reports"
    and l: "length reports = length devices"
    and d: "dom (container_profiles (fst (calculate_inference clk hs devices rows mp gcs s)))
       = dom (container_profiles s) \<union>
         (if \<exists>r\<in>set reports. 0 < r_unknown r
          then c_id ` {c \<in> set gcs. c_id c \<notin> resolved_ids mp rows} else {})"
    by blast
  have sub: "dom (container_profiles s)
       \<subseteq> dom (container_profiles (fst (calculate_inference clk hs devices rows mp gcs s)))"
    unfolding d by blast
  have new: "(\<exists>r\<in>set reports. 0 < r_unknown r) \<longrightarrow>
        (\<forall>c\<in>set gcs. c_id c \<notin> resolved_ids mp rows \<longrightarrow>
           c_id c \<in> dom (container_profiles
                           (fst (calculate_inference clk hs devices rows mp gcs s))))"
    unfolding d by auto
  from r l sub new d show ?thesis by blast
qed

lemma scenario_resolved: "resolved_ids scenario_map_pid scenario_rows = {c_id scenario_A}"
  by (simp add: resolved_ids_def scenario_map_pid_def scenario_rows_def)

theorem C8_profiles_after_cycle_witness:
  "c_id scenario_B
     \<in> dom (container_profiles
              (fst (calculate_inference (\<lambda>_. 0) 30 scenario_devices scenario_rows
                      scenario_map_pid [scenario_A, scenario_B, scenario_C]
                      EnhancedGPUInference_init)))"
proof -
  let ?c = "calculate_inference (\<lambda>_. 0) 30 scenario_devices scenario_rows
              scenario_map_pid [scenario_A, scenario_B, scenario_C] EnhancedGPUInference_init"
  from C8_profiles_after_cycle [of "\<lambda>_. 0" 30 scenario_devices scenario_rows
      scenario_map_pid "[scenario_A, scenario_B, scenario_C]" EnhancedGPUInference_init]
  obtain reports where r: "snd ?c = Inr reports"
    and new: "(\<exists>r\<in>set reports. 0 < r_unknown r) \<longrightarrow>
        (\<forall>c\<in>set [scenario_A, scenario_B, scenario_C].
           c_id c \<notin> resolved_ids scenario_map_pid scenario_rows \<longrightarrow>
           c_id c \<in> dom (container_profiles (fst ?c)))"
    by blast
  from r scenario_cycle [of "\<lambda>_. 0" 30] GiB_pos have "\<exists>r\<in>set reports. 0 < r_unknown r"
    by auto
  moreover have "c_id scenario_B \<notin> resolved_ids scenario_map_pid scenario_rows"
    by (simp add: scenario_resolved scenario_A_def scenario_B_def)
  ultimately show ?thesis using new by simp
qed

lemma idle_cycle:
  "calculate_inference clk hs scenario_idle_devices scenario_rows scenario_map_pid
     [scenario_A, scenario_B] EnhancedGPUInference_init
   = (get_total_gpu_memory hs scenario_idle_devices EnhancedGPUInference_init,
      Inr [\<lparr>r_gpu = 0, r_known = 2 * GiB, r_unknown = 0, r_active = False,
            r_confidence = 0, r_allocations = []\<rparr>])"
proof -
  define dev where "dev = \<lparr>uuid = ''GPU-0'', mem_total = 16 * GiB, mem_used = 2 * GiB,
    mem_free = 14 * GiB\<rparr>"
  define s1 where "s1 = get_total_gpu_memory hs scenario_idle_devices EnhancedGPUInference_init"
  define kp where "kp = [(0::nat, [\<lparr>pid = 100, memory_bytes = 2 * GiB\<rparr>])]"
  have devs: "scenario_idle_devices = [dev]" by (simp add: scenario_idle_devices_def dev_def)
  have used: "mem_used dev = 2 * GiB" by (simp add: dev_def)
  have empty: "container_profiles s1 = Map.empty"
    by (simp add: s1_def get_total_gpu_memory_def track_history_profiles
        EnhancedGPUInference_init_def)
  have kps: "get_known_gpu_processes scenario_idle_devices scenario_rows = kp"
    by (simp add: get_known_gpu_processes_def scenario_idle_devices_def scenario_rows_def
        get_gpu_index_from_uuid_def str_in_def GiB_def kp_def Let_def)
  have ids: "c_id scenario_A \<noteq> c_id scenario_B"
    by (simp add: scenario_A_def scenario_B_def)
  have known: "known_gpus_loop clk hs scenario_map_pid kp {} s1
      = ([(0, 2 * GiB)], {c_id scenario_A}, s1)"
    by (simp add: kp_def scenario_map_pid_def observe_existing_absent empty)
  have unknown: "find_unknown clk hs {c_id scenario_A} [scenario_A, scenario_B] s1
      = ([scenario_B], s1)"
    using ids by (simp add: observe_existing_absent empty)
  have gpu: "process_gpu clk hs kp [scenario_A, scenario_B] {c_id scenario_A} 0 dev s1
      = (s1, Inr \<lparr>r_gpu = 0, r_known = 2 * GiB, r_unknown = 0, r_active = False,
            r_confidence = 0, r_allocations = []\<rparr>)"
    unfolding process_gpu_def unknown by (simp add: kp_def used Let_def)
  show ?thesis
    unfolding calculate_inference_def s1_def [symmetric] kps
    by (simp add: known devs gpu Let_def)
qed

text \<open>In the scenario the directly attributed container A has no profile after the
  cycle although B and C got theirs; and on a device whose used memory is all known
  (2 GiB used, the same 2 GiB process), the unresolved container B has none either.\<close>

theorem C8_counterexample:
  "container_profiles
     (fst (calculate_inference (\<lambda>_. 0) 30 scenario_devices scenario_rows
             scenario_map_pid [scenario_A, scenario_B, scenario_C]
             EnhancedGPUInference_init)) (c_id scenario_A) = None \<and>
   container_profiles
     (fst (calculate_inference (\<lambda>_. 0) 30 scenario_idle_devices
             scenario_rows scenario_map_pid [scenario_A, scenario_B]
             EnhancedGPUInference_init)) (c_id scenario_B) = None"
proof -
  let ?c = "calculate_inference (\<lambda>_. 0) 30 scenario_devices scenario_rows
              scenario_map_pid [scenario_A, scenario_B, scenario_C] EnhancedGPUInference_init"
  have init: "dom (container_profiles EnhancedGPUInference_init) = {}"
    by (simp add: EnhancedGPUInference_init_def)
  from cycle_profiles [of "\<lambda>_. 0" 30 scenario_devices scenario_rows
      scenario_map_pid "[scenario_A, scenario_B, scenario_C]" EnhancedGPUInference_init]
  have "dom (container_profiles (fst ?c))
      \<subseteq> c_id ` {c \<in> set [scenario_A, scenario_B, scenario_C]. c_id c \<notin> {c_id scenario_A}}"
    unfolding init scenario_resolved by (auto split: if_splits)
  then have "c_id scenario_A \<notin> dom (container_profiles (fst ?c))"
    by auto
  then have a: "container_profiles (fst ?c) (c_id scenario_A) = None"
    by (simp add: domIff)
  have b: "container_profiles
     (fst (calculate_inference (\<lambda>_. 0) 30 scenario_idle_devices
             scenario_rows scenario_map_pid [scenario_A, scenario_B]
             EnhancedGPUInference_init)) (c_id scenario_B) = None"
    unfolding idle_cycle
    by (simp add: get_total_gpu_memory_def track_history_profiles EnhancedGPUInference_init_def)
  from a b show ?thesis by (rule conjI)
qed

section \<open>Properties of the probe detector\<close>

lemma deque_append_last: "0 < m \<Longrightarrow> x \<in> set (deque_append m xs x)"
proof -
  assume "0 < m"
  then have "length (xs @ [x]) - m < length (xs @ [x])" by simp
  then have "last (drop (length (xs @ [x]) - m) (xs @ [x])) = last (xs @ [x])"
    by (rule last_drop)
  moreover have "drop (length (xs @ [x]) - m) (xs @ [x]) \<noteq> []"
    using \<open>0 < m\<close> by simp
  ultimately have "x \<in> set (drop (length (xs @ [x]) - m) (xs @ [x]))"
    by (metis last_in_set last_snoc)
  then show ?thesis by (simp add: deque_append_def Let_def)
qed

lemma history_generate:
  "inference_history (probe_generate outcome t s) =
   (if qualifying (Generate outcome t) then deque_append 10 (inference_history s) t
    else inference_history s)"
  by (cases outcome) (simp_all add: probe_generate_def mark_inference_active_def)

lemma history_tags: "inference_history (probe_tags outcome s) = inference_history s"
  by (cases outcome) (simp_all add: probe_tags_def mark_inference_likely_active_def)

lemma history_status: "inference_history (update_status t s) = inference_history s"
  by (simp add: update_status_def Let_def)

lemma active_status:
  "ollama_inference_active (update_status current_time s)
   = (\<exists>t\<in>set (inference_history s). current_time - t < 30)"
  by (auto simp: update_status_def Let_def filter_empty_conv)

lemma active_timeout: "ollama_inference_active (probe_generate Timeout t s)"
  by (simp add: probe_generate_def mark_inference_active_def)

lemma active_tags: "ollama_inference_active (probe_tags outcome s) = ollama_inference_active s"
  by (cases outcome) (simp_all add: probe_tags_def mark_inference_likely_active_def)

lemma detector_run_append:
  "detector_run s (es @ es') = detector_run (detector_run s es) es'"
  by (induction es arbitrary: s) simp_all

lemma event_times_append: "event_times (es @ es') = event_times es @ event_times es'"
  by (induction es rule: event_times.induct) simp_all

lemma observation_times_append:
  "observation_times (es @ es') = observation_times es @ observation_times es'"
  by (induction es rule: observation_times.induct) simp_all

lemma observation_times_subset: "set (observation_times es) \<subseteq> set (event_times es)"
  by (induction es rule: observation_times.induct) auto

text \<open>While the clock readings of a run do not decrease, every qualifying observation
  made so far is no later than some timestamp the bounded history still holds.\<close>

lemma detector_run_covers:
  "sorted (event_times es) \<Longrightarrow>
   \<forall>t\<in>set (observation_times es).
     \<exists>h\<in>set (inference_history (detector_run InferenceDetector_init es)). t \<le> h"
proof (induction es rule: rev_induct)
  case Nil
  then show ?case by simp
next
  case (snoc e es)
  let ?s = "detector_run InferenceDetector_init es"
  from snoc.prems have srt: "sorted (event_times es)"
    and later: "\<forall>a\<in>set (event_times es). \<forall>b\<in>set (event_times [e]). a \<le> b"
    by (simp_all add: event_times_append sorted_append)
  note IH = snoc.IH [OF srt]
  have run: "detector_run InferenceDetector_init (es @ [e]) = detector_step ?s e"
    by (simp add: detector_run_append)
  have "\<forall>x\<in>set (observation_times (es @ [e])).
          \<exists>h\<in>set (inference_history (detector_step ?s e)). x \<le> h"
  proof (cases e)
    case (Tags outcome)
    then show ?thesis
      using IH by (simp add: observation_times_append history_tags)
  next
    case (Status t)
    then show ?thesis
      using IH by (simp add: observation_times_append history_status)
  next
    case (Generate outcome t)
    show ?thesis
    proof (cases "qualifying (Generate outcome t)")
      case False
      then show ?thesis
        using IH Generate by (simp add: observation_times_append history_generate)
    next
      case True
      have h: "inference_history (detector_step ?s e) = deque_append 10 (inference_history ?s) t"
        using True Generate by (simp add: history_generate)
      have t: "t \<in> set (inference_history (detector_step ?s e))"
        unfolding h by (rule deque_append_last) simp
      have "\<forall>a\<in>set (observation_times es). a \<le> t"
        using later observation_times_subset [of es] Generate by auto
      moreover have "set (observation_times (es @ [e])) = insert t (set (observation_times es))"
        using True Generate by (simp add: observation_times_append)
      ultimately show ?thesis
        using t by auto
    qed
  qed
  then show ?case
    unfolding run .
qed

text \<open>
  Claim C7. A generate probe that times out (the request is sent with a timeout of
  0.5 s) sets the detector active in that step, from every state; the detector state has
  no component for the memory-based attribution. \<open>update_status\<close> leaves the detector
  active exactly when the history holds a timestamp less than 30 s old. In a run from
  the initial state with non-decreasing clock readings, a status update that returns
  the detector to idle finds every qualifying observation of the run at least 30 s old.
\<close>

theorem C7_probe_detector:
  "ollama_inference_active (probe_generate Timeout t s) \<and>
   ollama_inference_active (check_inference Timeout t tags_outcome s) \<and>
   ollama_inference_active (update_status now s)
     = (\<exists>h\<in>set (inference_history s). now - h < 30) \<and>
   (sorted (event_times es) \<and>
    \<not> ollama_inference_active (detector_run InferenceDetector_init (es @ [Status now]))
    \<longrightarrow> (\<forall>x\<in>set (observation_times es). 30 \<le> now - x))"
proof (intro conjI impI)
  show "ollama_inference_active (probe_generate Timeout t s)"
    by (rule active_timeout)
  show "ollama_inference_active (check_inference Timeout t tags_outcome s)"
    by (simp add: check_inference_def active_tags active_timeout)
  show "ollama_inference_active (update_status now s)
     = (\<exists>h\<in>set (inference_history s). now - h < 30)"
    by (rule active_status)
next
  assume a: "sorted (event_times es) \<and>
    \<not> ollama_inference_active (detector_run InferenceDetector_init (es @ [Status now]))"
  let ?s = "detector_run InferenceDetector_init es"
  from a have idle: "\<not> ollama_inference_active (update_status now ?s)"
    by (simp add: detector_run_append)
  then have old: "\<forall>h\<in>set (inference_history ?s). 30 \<le> now - h"
    by (auto simp: active_status)
  from a have cover: "\<forall>x\<in>set (observation_times es). \<exists>h\<in>set (inference_history ?s). x \<le> h"
    using detector_run_covers [of es] by blast
  show "\<forall>x\<in>set (observation_times es). 30 \<le> now - x"
  proof
    fix x assume "x \<in> set (observation_times es)"
    with cover obtain h where "h \<in> set (inference_history ?s)" "x \<le> h" by blast
    with old have "30 \<le> now - h" by blast
    with \<open>x \<le> h\<close> show "30 \<le> now - x" by simp
  qed
qed

theorem C7_probe_detector_witness:
  "ollama_inference_active (detector_run InferenceDetector_init [Generate Timeout 100]) \<and>
   ollama_inference_active
     (detector_run InferenceDetector_init [Generate Timeout 100, Status 110]) \<and>
   \<not> ollama_inference_active
     (detector_run InferenceDetector_init
        ([Generate Timeout 100, Status 110, Generate (Responded (1 / 10)) 120] @ [Status 140])) \<and>
   (30::real) \<le> 140 - 100"
proof -
  let ?es = "[Generate Timeout 100, Status 110, Generate (Responded (1 / 10)) 120]"
  have s: "sorted (event_times ?es)" by simp
  have i: "\<not> ollama_inference_active
     (detector_run InferenceDetector_init (?es @ [Status 140]))"
    by (simp add: probe_generate_def mark_inference_active_def update_status_def
        InferenceDetector_init_def deque_append_def Let_def)
  have o: "100 \<in> set (observation_times ?es)" by simp
  from C7_probe_detector [of 100 InferenceDetector_init Failed 140 ?es] s i o
  have "(30::real) \<le> 140 - 100" by blast
  moreover have "ollama_inference_active (detector_run InferenceDetector_init [Generate Timeout 100])"
    by (simp add: active_timeout)
  moreover have "ollama_inference_active
     (detector_run InferenceDetector_init [Generate Timeout 100, Status 110])"
    by (simp add: probe_generate_def mark_inference_active_def active_status
        InferenceDetector_init_def deque_append_def Let_def)
  ultimately show ?thesis using i by blast
qed

end
